theory Spec2Isabelle
  imports Main
begin

section \<open>Python values and the environment of the schema manager\<close>

text \<open>
  The development embeds \<^verbatim>\<open>src/schema/schema_manager.py\<close> (class \<^verbatim>\<open>SchemaManager\<close>) and
  the node \<^verbatim>\<open>_process_input\<close> of \<^verbatim>\<open>src/agents/unconfigured_agent.py\<close>.

  A Python \<^verbatim>\<open>str\<close> is a \<^typ>\<open>string\<close>; a character stands for the code point of the
  same number (code points below 256). A Python \<^verbatim>\<open>int\<close> is an \<^typ>\<open>int\<close>. Every
  exception the code can meet is a value of \<open>exn\<close>, and a function that can raise
  returns \<open>exn + 'a\<close> with \<open>Inl\<close> for the raised exception.
  \<^verbatim>\<open>UnboundLocalError\<close> is Python's subclass of \<^verbatim>\<open>NameError\<close> raised when a local
  variable is read before any assignment; \<open>OtherException\<close> stands for every other
  subclass of \<^verbatim>\<open>Exception\<close> (a transport error of the LLM, an \<^verbatim>\<open>OSError\<close> of the
  process launch), with its message.
\<close>

datatype exn =
    FileNotFoundError
  | IsADirectoryError
  | NotADirectoryError
  | FileExistsError
  | PermissionError
  | UnicodeEncodeError
  | UnboundLocalError
  | OtherException string

abbreviation LF :: char where "LF \<equiv> CHR 0x0A"
abbreviation CR :: char where "CR \<equiv> CHR 0x0D"

subsection \<open>The file system\<close>

text \<open>
  A path is the list of its components below the working directory (what
  \<^verbatim>\<open>pathlib.Path\<close> holds after parsing, \<^verbatim>\<open>Path(a) / Path(b)\<close> being the concatenation),
  the empty list being the working directory itself. The file system holds the set of
  directories, the raw content of every regular file, and the set of directories and
  files that deny writing: nothing is created in or removed from a read-only directory,
  and a read-only file is not opened for writing. Reading is always permitted.
\<close>

type_synonym path = "string list"

record filesystem =
  dirs :: "path set"
  files :: "path \<rightharpoonup> string"
  readonly :: "path set"

definition is_dir :: "filesystem \<Rightarrow> path \<Rightarrow> bool" where
  "is_dir f p = (p = [] \<or> p \<in> dirs f)"

definition is_file :: "filesystem \<Rightarrow> path \<Rightarrow> bool" where
  "is_file f p = (files f p \<noteq> None)"

definition parents :: "path \<Rightarrow> path list" where
  \<comment> \<open>the directories above a path, outermost first, without the working directory\<close>
  "parents p = map (\<lambda>n. take n p) [1..<length p]"

definition ancestors :: "path \<Rightarrow> path list" where
  \<comment> \<open>the directories above a path, then the path itself\<close>
  "ancestors p = map (\<lambda>n. take n p) [1..<Suc (length p)]"

fun walk :: "filesystem \<Rightarrow> path list \<Rightarrow> exn option" where
  \<comment> \<open>the system's walk down the directories above a path: it stops at the first one
      that is a regular file or does not exist\<close>
  "walk f [] = None"
| "walk f (q # qs) =
     (if is_file f q then Some NotADirectoryError
      else if \<not> is_dir f q then Some FileNotFoundError
      else walk f qs)"

definition path_exists :: "filesystem \<Rightarrow> path \<Rightarrow> bool" where
  \<comment> \<open>\<^verbatim>\<open>Path.exists()\<close>\<close>
  "path_exists f p = (walk f (parents p) = None \<and> (is_dir f p \<or> is_file f p))"

text \<open>
  Text mode with the default \<^verbatim>\<open>newline=None\<close>, as \<^verbatim>\<open>open(path, "w")\<close> and
  \<^verbatim>\<open>open(path, "r")\<close> use it: on writing, every line feed becomes the platform's line
  separator \<^verbatim>\<open>os.linesep\<close>; on reading, universal newlines are on, so that each of
  \<^verbatim>\<open>\r\n\<close> and \<^verbatim>\<open>\r\<close> is returned as one line feed.
\<close>

fun write_translate :: "string \<Rightarrow> string \<Rightarrow> string" where
  "write_translate linesep [] = []"
| "write_translate linesep (c # cs) =
     (if c = LF then linesep @ write_translate linesep cs
      else c # write_translate linesep cs)"

fun read_translate :: "string \<Rightarrow> string" where
  "read_translate [] = []"
| "read_translate (c # cs) =
     (if c = CR then
        (case cs of
           [] \<Rightarrow> [LF]
         | d # ds \<Rightarrow> if d = LF then LF # read_translate ds else LF # read_translate cs)
      else c # read_translate cs)"

definition open_truncate :: "filesystem \<Rightarrow> path \<Rightarrow> exn + filesystem" where
  \<comment> \<open>\<^verbatim>\<open>open(p, "w")\<close>: no directory is created; the file is created, or emptied when it
      exists\<close>
  "open_truncate f p =
     (case walk f (parents p) of
        Some e \<Rightarrow> Inl e
      | None \<Rightarrow>
          if is_dir f p then Inl IsADirectoryError
          else if is_file f p \<and> p \<in> readonly f then Inl PermissionError
          else if \<not> is_file f p \<and> butlast p \<in> readonly f then Inl PermissionError
          else Inr (f\<lparr>files := (files f)(p \<mapsto> [])\<rparr>))"

definition open_read :: "filesystem \<Rightarrow> path \<Rightarrow> exn + string" where
  \<comment> \<open>\<^verbatim>\<open>with open(p, "r") as f: f.read()\<close>\<close>
  "open_read f p =
     (case walk f (parents p) of
        Some e \<Rightarrow> Inl e
      | None \<Rightarrow>
          if is_dir f p then Inl IsADirectoryError
          else case files f p of
                 None \<Rightarrow> Inl FileNotFoundError
               | Some raw \<Rightarrow> Inr (read_translate raw))"

definition unlink :: "filesystem \<Rightarrow> path \<Rightarrow> exn + filesystem" where
  \<comment> \<open>\<^verbatim>\<open>Path.unlink()\<close>\<close>
  "unlink f p =
     (case walk f (parents p) of
        Some e \<Rightarrow> Inl e
      | None \<Rightarrow>
          if is_dir f p then Inl IsADirectoryError
          else if \<not> is_file f p then Inl FileNotFoundError
          else if butlast p \<in> readonly f then Inl PermissionError
          else Inr (f\<lparr>files := (files f)(p := None)\<rparr>))"

fun mkdir_walk :: "path \<Rightarrow> path list \<Rightarrow> filesystem \<Rightarrow> exn option \<times> filesystem" where
  \<comment> \<open>the directories of the list are created in turn where they do not exist; the
      ones created before a failure stay\<close>
  "mkdir_walk p [] f = (None, f)"
| "mkdir_walk p (q # qs) f =
     (if is_file f q then (Some (if q = p then FileExistsError else NotADirectoryError), f)
      else if is_dir f q then mkdir_walk p qs f
      else if butlast q \<in> readonly f then (Some PermissionError, f)
      else mkdir_walk p qs (f\<lparr>dirs := insert q (dirs f)\<rparr>))"

definition mkdir_parents :: "filesystem \<Rightarrow> path \<Rightarrow> exn option \<times> filesystem" where
  \<comment> \<open>\<^verbatim>\<open>Path.mkdir(parents=True, exist_ok=True)\<close>\<close>
  "mkdir_parents f p = mkdir_walk p (ancestors p) f"

subsection \<open>Collaborators\<close>

text \<open>
  The LLM client and the external \<^verbatim>\<open>prisma\<close> process are opaque. A client is the
  function behind \<^verbatim>\<open>LLMClient.chat_completion(user_message, system_message)\<close>; its
  first argument is the number of completions requested before, so that two calls with
  the same prompt may differ. It returns the reply or raises.
\<close>

type_synonym LLMClient = "nat \<Rightarrow> string \<Rightarrow> string \<Rightarrow> exn + string"

datatype CompletedProcess =
  CompletedProcess (returncode: int) (stdout: string) (stderr: string)

text \<open>
  The environment: \<open>subprocess_run\<close> is
  \<^verbatim>\<open>subprocess.run(["prisma", "validate", "--schema=<path>"], capture_output=True,
  text=True)\<close>, given the number of earlier validations, the schema path and the file
  system it reads (it does not change the file system); it raises when the process
  cannot be launched (\<open>FileNotFoundError\<close> when there is no such executable,
  \<open>PermissionError\<close> when the file found may not be executed).
  \<open>exn_str\<close> is \<^verbatim>\<open>str(e)\<close>, \<open>os_linesep\<close> is \<^verbatim>\<open>os.linesep\<close>, \<open>encodable\<close> tells the
  strings that the encoding of text files (the locale's) can encode, and
  \<open>database_url\<close> is \<^verbatim>\<open>settings.database_url\<close> of \<^verbatim>\<open>src/config.py\<close>.
\<close>

record env =
  subprocess_run :: "nat \<Rightarrow> path \<Rightarrow> filesystem \<Rightarrow> exn + CompletedProcess"
  exn_str :: "exn \<Rightarrow> string"
  os_linesep :: string
  encodable :: "string \<Rightarrow> bool"
  database_url :: string

definition file_write :: "env \<Rightarrow> filesystem \<Rightarrow> path \<Rightarrow> string \<Rightarrow> exn + filesystem" where
  \<comment> \<open>\<^verbatim>\<open>f.write(content)\<close> on the file opened at \<open>p\<close>, and its closing: the text is
      encoded as a whole, so a text that cannot be encoded leaves the file as it was
      opened\<close>
  "file_write ev f p content =
     (if \<not> encodable ev content then Inl UnicodeEncodeError
      else Inr (f\<lparr>files := (files f)(p \<mapsto> write_translate (os_linesep ev) content)\<rparr>))"

text \<open>
  The state the program works on: the file system and the number of completions the LLM
  has served. The other three fields are observations, which the program never reads:
  the number of calls of \<^verbatim>\<open>_run_prisma_validate\<close> (by which the environment tells one
  launch of the validator from the next), the number of calls of
  \<^verbatim>\<open>_fix_schema_with_llm\<close>, and the contents written by completed calls of
  \<^verbatim>\<open>set_schema\<close>, latest first.
\<close>

record world =
  fs :: filesystem
  llm_calls :: nat
  validate_calls :: nat
  fix_calls :: nat
  schema_writes :: "string list"

section \<open>The schema manager\<close>

record SchemaManager =
  schema_dir :: path
  schema_file :: path
  schema_path :: path
  llm_client :: "LLMClient option"

definition SchemaManager_init ::
  "path \<Rightarrow> path \<Rightarrow> LLMClient option \<Rightarrow> world \<Rightarrow> (exn + SchemaManager) \<times> world" where
  \<comment> \<open>\<^verbatim>\<open>SchemaManager.__init__\<close>: the only place that creates the schema directory\<close>
  "SchemaManager_init sdir sfile llm w =
     (case mkdir_parents (fs w) sdir of
        (Some e, f') \<Rightarrow> (Inl e, w\<lparr>fs := f'\<rparr>)
      | (None, f') \<Rightarrow>
          (Inr \<lparr>schema_dir = sdir, schema_file = sfile, schema_path = sdir @ sfile,
                llm_client = llm\<rparr>,
           w\<lparr>fs := f'\<rparr>))"

definition get_schema :: "SchemaManager \<Rightarrow> world \<Rightarrow> exn + string" where
  "get_schema m w =
     (if \<not> path_exists (fs w) (schema_path m) then Inr []
      else open_read (fs w) (schema_path m))"

definition set_schema :: "env \<Rightarrow> SchemaManager \<Rightarrow> string \<Rightarrow> world \<Rightarrow> (exn + unit) \<times> world" where
  "set_schema ev m schema_content w =
     (case open_truncate (fs w) (schema_path m) of
        Inl e \<Rightarrow> (Inl e, w)
      | Inr f1 \<Rightarrow>
          (case file_write ev f1 (schema_path m) schema_content of
             Inl e \<Rightarrow> (Inl e, w\<lparr>fs := f1\<rparr>)
           | Inr f2 \<Rightarrow>
               (Inr (), w\<lparr>fs := f2, schema_writes := schema_content # schema_writes w\<rparr>)))"

subsection \<open>Python's string operations\<close>

definition isspace :: "char \<Rightarrow> bool" where
  \<comment> \<open>the white space \<^verbatim>\<open>str.strip()\<close> removes, among the code points below 256\<close>
  "isspace c =
     (let n = (of_char c :: nat)
      in (9 \<le> n \<and> n \<le> 13) \<or> (28 \<le> n \<and> n \<le> 32) \<or> n = 133 \<or> n = 160)"

definition py_strip :: "string \<Rightarrow> string" where
  \<comment> \<open>\<^verbatim>\<open>s.strip()\<close>\<close>
  "py_strip s = rev (dropWhile isspace (rev (dropWhile isspace s)))"

fun startswith :: "string \<Rightarrow> string \<Rightarrow> bool" where
  \<comment> \<open>\<^verbatim>\<open>s.startswith(p)\<close>\<close>
  "startswith s [] = True"
| "startswith [] (p # ps) = False"
| "startswith (c # cs) (p # ps) = (c = p \<and> startswith cs ps)"

fun py_in :: "string \<Rightarrow> string \<Rightarrow> bool" where
  \<comment> \<open>\<^verbatim>\<open>sub in s\<close>\<close>
  "py_in sub [] = (sub = [])"
| "py_in sub (c # cs) = (startswith (c # cs) sub \<or> py_in sub cs)"

fun split_newline :: "string \<Rightarrow> string list" where
  \<comment> \<open>\<^verbatim>\<open>s.split("\n")\<close>: always at least one line\<close>
  "split_newline [] = [[]]"
| "split_newline (c # cs) =
     (if c = LF then [] # split_newline cs
      else (c # hd (split_newline cs)) # tl (split_newline cs))"

fun join_newline :: "string list \<Rightarrow> string" where
  \<comment> \<open>\<^verbatim>\<open>"\n".join(ls)\<close>\<close>
  "join_newline [] = []"
| "join_newline [l] = l"
| "join_newline (l # l' # ls) = l @ LF # join_newline (l' # ls)"

definition fence :: string where
  "fence = ''```''"

fun code_block_lines :: "string list \<Rightarrow> bool \<Rightarrow> string list \<Rightarrow> string list" where
  \<comment> \<open>the loop \<^verbatim>\<open>for line in lines\<close> with its variables \<^verbatim>\<open>in_code_block\<close> and
      \<^verbatim>\<open>schema_lines\<close>\<close>
  "code_block_lines [] in_code_block schema_lines = schema_lines"
| "code_block_lines (line # lines) in_code_block schema_lines =
     (if startswith (py_strip line) fence
      then code_block_lines lines (\<not> in_code_block) schema_lines
      else if in_code_block
      then code_block_lines lines in_code_block (schema_lines @ [line])
      else code_block_lines lines in_code_block schema_lines)"

definition extract_schema :: "string \<Rightarrow> string" where
  \<comment> \<open>The stripping of markdown code blocks, written inline and alike in
      \<^verbatim>\<open>_fix_schema_with_llm\<close> (lines 156 to 172) and in \<^verbatim>\<open>_process_input\<close> (lines 120
      to 135): the block under \<^verbatim>\<open>if "```" in reply\<close>, then \<^verbatim>\<open>.strip()\<close>.\<close>
  "extract_schema reply =
     py_strip (if py_in fence reply
               then join_newline (code_block_lines (split_newline reply) False [])
               else reply)"

subsection \<open>The validator adapter \<^verbatim>\<open>_run_prisma_validate\<close>\<close>

definition temp_schema_path :: "SchemaManager \<Rightarrow> path" where
  "temp_schema_path m = schema_dir m @ [''temp_schema.prisma'']"

definition prisma_not_found :: string where
  "prisma_not_found =
     ''Prisma CLI not found. Please install Prisma:\<newline>'' @
     ''  Python: pip install prisma\<newline>'' @
     ''  Node.js: npm install -g prisma''"

definition py_or :: "string \<Rightarrow> string \<Rightarrow> string" where
  \<comment> \<open>\<^verbatim>\<open>a or b\<close> on strings: the empty string is false\<close>
  "py_or a b = (if a \<noteq> [] then a else b)"

definition prisma_validate_body ::
  "env \<Rightarrow> SchemaManager \<Rightarrow> string \<Rightarrow> world \<Rightarrow> (exn + bool \<times> string) \<times> world" where
  \<comment> \<open>the \<^verbatim>\<open>try\<close> block; the file system keeps what was done before a raise. Paths
      being relative to the working directory, \<^verbatim>\<open>resolve()\<close> changes nothing here.\<close>
  "prisma_validate_body ev m schema_content w =
     (case open_truncate (fs w) (temp_schema_path m) of
        Inl e \<Rightarrow> (Inl e, w)
      | Inr f1 \<Rightarrow>
     (case file_write ev f1 (temp_schema_path m) schema_content of
        Inl e \<Rightarrow> (Inl e, w\<lparr>fs := f1\<rparr>)
      | Inr f2 \<Rightarrow>
     (case subprocess_run ev (validate_calls w) (temp_schema_path m) f2 of
        Inl e \<Rightarrow> (Inl e, w\<lparr>fs := f2\<rparr>)
      | Inr result \<Rightarrow>
     (case (if path_exists f2 (temp_schema_path m)
            then unlink f2 (temp_schema_path m) else Inr f2) of
        Inl e \<Rightarrow> (Inl e, w\<lparr>fs := f2\<rparr>)
      | Inr f3 \<Rightarrow>
          (if returncode result = 0 then (Inr (True, []), w\<lparr>fs := f3\<rparr>)
           else (Inr (False,
                      py_or (stderr result)
                        (py_or (stdout result) ''Unknown validation error'')),
                 w\<lparr>fs := f3\<rparr>))))))"

definition run_prisma_validate ::
  "env \<Rightarrow> SchemaManager \<Rightarrow> string \<Rightarrow> world \<Rightarrow> (bool \<times> string) \<times> world" where
  "run_prisma_validate ev m schema_content w =
     (case prisma_validate_body ev m schema_content w of
        (Inr r, w') \<Rightarrow> (r, w'\<lparr>validate_calls := Suc (validate_calls w)\<rparr>)
      | (Inl FileNotFoundError, w') \<Rightarrow>
          ((False, prisma_not_found), w'\<lparr>validate_calls := Suc (validate_calls w)\<rparr>)
      | (Inl e, w') \<Rightarrow>
          ((False, ''Error running prisma validate: '' @ exn_str ev e),
           w'\<lparr>validate_calls := Suc (validate_calls w)\<rparr>))"

subsection \<open>The repair requester \<^verbatim>\<open>_fix_schema_with_llm\<close>\<close>

definition fix_prompt :: "string \<Rightarrow> string \<Rightarrow> string" where
  "fix_prompt schema_content error_message =
     ''You are a Prisma schema expert. Fix the following Prisma schema based on the error message.\<newline>'' @
     ''\<newline>'' @
     ''Error:\<newline>'' @
     error_message @ ''\<newline>'' @
     ''\<newline>'' @
     ''Current Schema:\<newline>'' @
     ''```prisma\<newline>'' @
     schema_content @ ''\<newline>'' @
     ''```\<newline>'' @
     ''\<newline>'' @
     ''Please provide the fixed Prisma schema. Return ONLY the complete, corrected schema without any explanations or markdown formatting outside of the code block.''"

definition fix_system_message :: string where
  "fix_system_message =
     ''You are an expert at fixing Prisma schemas. Your job is to identify and fix syntax errors, validation issues, and schema problems in Prisma schema files.\<newline>'' @
     ''            \<newline>'' @
     ''When fixing schemas:\<newline>'' @
     ''1. Ensure all model definitions are correct\<newline>'' @
     ''2. Check that field types are valid\<newline>'' @
     ''3. Verify relation syntax is correct\<newline>'' @
     ''4. Do not change or add any extra information such as relations, fields, etc.\<newline>'' @
     ''\<newline>'' @
     ''Return only the complete fixed schema in a prisma code block.''"

definition chat_completion ::
  "LLMClient \<Rightarrow> string \<Rightarrow> string \<Rightarrow> world \<Rightarrow> (exn + string) \<times> world" where
  \<comment> \<open>one call of the client: the reply or the exception, and one more call served\<close>
  "chat_completion llm user_message system_message w =
     (llm (llm_calls w) user_message system_message, w\<lparr>llm_calls := Suc (llm_calls w)\<rparr>)"

definition fix_schema_with_llm ::
  "SchemaManager \<Rightarrow> string \<Rightarrow> string \<Rightarrow> world \<Rightarrow> string \<times> world" where
  "fix_schema_with_llm m schema_content error_message w =
     (case llm_client m of
        None \<Rightarrow> (schema_content, w\<lparr>fix_calls := Suc (fix_calls w)\<rparr>)
      | Some llm \<Rightarrow>
          (case chat_completion llm (fix_prompt schema_content error_message)
                  fix_system_message w of
             (Inl e, w') \<Rightarrow> (schema_content, w'\<lparr>fix_calls := Suc (fix_calls w)\<rparr>)
           | (Inr fixed_schema, w') \<Rightarrow>
               (extract_schema fixed_schema, w'\<lparr>fix_calls := Suc (fix_calls w)\<rparr>)))"

subsection \<open>The orchestrator \<^verbatim>\<open>validate_schema\<close>\<close>

record ValidationResult =
  success :: bool
  error :: string
  fixed_schema :: string
  attempts :: int

definition all_attempts_failed ::
  "string option \<Rightarrow> string \<Rightarrow> int \<Rightarrow> world \<Rightarrow> (exn + ValidationResult) \<times> world" where
  \<comment> \<open>the code after the loop; \<^verbatim>\<open>error_message\<close> is \<open>None\<close> as long as the loop has not
      assigned it, and reading it then raises\<close>
  "all_attempts_failed error_message current_schema att w =
     (case error_message of
        None \<Rightarrow> (Inl UnboundLocalError, w)
      | Some msg \<Rightarrow>
          (Inr \<lparr>success = False, error = msg, fixed_schema = current_schema,
                attempts = att\<rparr>, w))"

function validate_loop ::
  "env \<Rightarrow> SchemaManager \<Rightarrow> string \<Rightarrow> int \<Rightarrow> int \<Rightarrow> string \<Rightarrow> string option \<Rightarrow> world
     \<Rightarrow> (exn + ValidationResult) \<times> world" where
  "validate_loop ev m schema_content max_retries att current_schema error_message w =
     (if att < max_retries then
        (case run_prisma_validate ev m current_schema w of
           ((ok, msg), w1) \<Rightarrow>
             if ok then
               (if current_schema \<noteq> schema_content then
                  (case set_schema ev m current_schema w1 of
                     (Inl e, w2) \<Rightarrow> (Inl e, w2)
                   | (Inr u, w2) \<Rightarrow>
                       (Inr \<lparr>success = True, error = [], fixed_schema = current_schema,
                             attempts = att + 1\<rparr>, w2))
                else
                  (Inr \<lparr>success = True, error = [], fixed_schema = current_schema,
                        attempts = att + 1\<rparr>, w1))
             else if att + 1 < max_retries \<and> llm_client m \<noteq> None then
               (case fix_schema_with_llm m current_schema msg w1 of
                  (fixed, w2) \<Rightarrow>
                    validate_loop ev m schema_content max_retries (att + 1) fixed (Some msg) w2)
             else all_attempts_failed (Some msg) current_schema (att + 1) w1)
      else all_attempts_failed error_message current_schema att w)"
  by pat_completeness auto
termination
  by (relation "measure (\<lambda>(ev, m, sc, mr, att, cur, em, w). nat (mr - att))") auto

declare validate_loop.simps [simp del]

definition validate_schema ::
  "env \<Rightarrow> SchemaManager \<Rightarrow> string \<Rightarrow> int \<Rightarrow> world \<Rightarrow> (exn + ValidationResult) \<times> world" where
  "validate_schema ev m schema_content max_retries w =
     (if schema_content = [] then
        (Inr \<lparr>success = False, error = ''Schema content is empty'', fixed_schema = [],
              attempts = 0\<rparr>, w)
      else validate_loop ev m schema_content max_retries 0 schema_content None w)"

section \<open>The conversational front-end \<^verbatim>\<open>UnconfiguredAgent._process_input\<close>\<close>


record AgentState =
  user_input :: string
  response :: string
  state_error :: "string option option"











section \<open>Observations and example inputs\<close>

text \<open>
  How far one call of \<^verbatim>\<open>_run_prisma_validate\<close> gets: the temporary file is not written
  (opening or writing raised), or the process is not launched, or it completes and the
  removal of the temporary file raises, or everything is done.
\<close>

datatype validation_stage =
    NotWritten exn
  | NotLaunched exn
  | NotRemoved CompletedProcess exn
  | Done CompletedProcess

definition validation_stage ::
  "env \<Rightarrow> SchemaManager \<Rightarrow> string \<Rightarrow> world \<Rightarrow> validation_stage" where
  "validation_stage ev m schema_content w =
     (case open_truncate (fs w) (temp_schema_path m) of
        Inl e \<Rightarrow> NotWritten e
      | Inr f1 \<Rightarrow>
     (case file_write ev f1 (temp_schema_path m) schema_content of
        Inl e \<Rightarrow> NotWritten e
      | Inr f2 \<Rightarrow>
     (case subprocess_run ev (validate_calls w) (temp_schema_path m) f2 of
        Inl e \<Rightarrow> NotLaunched e
      | Inr result \<Rightarrow>
     (case (if path_exists f2 (temp_schema_path m)
            then unlink f2 (temp_schema_path m) else Inr f2) of
        Inl e \<Rightarrow> NotRemoved result e
      | Inr f3 \<Rightarrow> Done result))))"

definition handled :: "env \<Rightarrow> exn \<Rightarrow> bool \<times> string" where
  \<comment> \<open>what the two \<^verbatim>\<open>except\<close> clauses of \<^verbatim>\<open>_run_prisma_validate\<close> return\<close>
  "handled ev e =
     (if e = FileNotFoundError then (False, prisma_not_found)
      else (False, ''Error running prisma validate: '' @ exn_str ev e))"

text \<open>
  The specification's loop, steps 3b and 3d, repeated \<open>k\<close> times from a candidate and a
  world: one call of the validator, then one call of the repair with its diagnostic.
  The result is the candidate and the world in which the validator is called for the
  time \<open>k + 1\<close>, in a run that gets that far.
\<close>

fun candidate_after ::
  "env \<Rightarrow> SchemaManager \<Rightarrow> nat \<Rightarrow> string \<Rightarrow> world \<Rightarrow> string \<times> world" where
  "candidate_after ev m 0 c w = (c, w)"
| "candidate_after ev m (Suc k) c w =
     (case run_prisma_validate ev m c w of
        ((ok, msg), w1) \<Rightarrow>
          (case fix_schema_with_llm m c msg w1 of
             (c', w2) \<Rightarrow> candidate_after ev m k c' w2))"

definition nth_validation ::
  "env \<Rightarrow> SchemaManager \<Rightarrow> nat \<Rightarrow> string \<Rightarrow> world \<Rightarrow> (bool \<times> string) \<times> world" where
  \<comment> \<open>the call of the validator number \<open>k + 1\<close> of such a run\<close>
  "nth_validation ev m k c w =
     run_prisma_validate ev m (fst (candidate_after ev m k c w))
       (snd (candidate_after ev m k c w))"

text \<open>
  A POSIX environment with a UTF-8 locale whose validator always ends the same way, the
  default manager \<^verbatim>\<open>SchemaManager()\<close> with a given client, and a world with given
  directories, no file, and nothing read-only.
\<close>

definition example_env :: "(exn + CompletedProcess) \<Rightarrow> env" where
  "example_env outcome =
     \<lparr>subprocess_run = (\<lambda>n p f. outcome),
      exn_str = (\<lambda>e. case e of
                       OtherException msg \<Rightarrow> msg
                     | PermissionError \<Rightarrow> ''[Errno 13] Permission denied''
                     | _ \<Rightarrow> ''error''),
      os_linesep = [LF],
      encodable = (\<lambda>s. True),
      database_url = ''postgresql://localhost/db''\<rparr>"

definition example_manager :: "LLMClient option \<Rightarrow> SchemaManager" where
  "example_manager llm =
     \<lparr>schema_dir = [''prisma''], schema_file = [''schema.prisma''],
      schema_path = [''prisma'', ''schema.prisma''], llm_client = llm\<rparr>"

definition example_world :: "path set \<Rightarrow> world" where
  "example_world ds =
     \<lparr>fs = \<lparr>dirs = ds, files = Map.empty, readonly = {}\<rparr>, llm_calls = 0,
      validate_calls = 0, fix_calls = 0, schema_writes = []\<rparr>"

definition passing :: "exn + CompletedProcess" where
  "passing = Inr (CompletedProcess 0 [] [])"

definition failing :: "exn + CompletedProcess" where
  "failing = Inr (CompletedProcess 1 [] ''missing id field'')"

definition replying :: "string \<Rightarrow> LLMClient" where
  "replying reply = (\<lambda>n user_message system_message. Inr reply)"

definition unreachable :: LLMClient where
  "unreachable = (\<lambda>n user_message system_message. Inl (OtherException ''connection error''))"


definition picky_env :: env where
  \<comment> \<open>the validator accepts one schema only\<close>
  "picky_env =
     (example_env passing)\<lparr>subprocess_run :=
        (\<lambda>n p f. if files f p = Some ''model C {}'' then passing else failing)\<rparr>"





definition locked_world :: world where
  \<comment> \<open>a temporary file left by an earlier run, in a directory made read-only since\<close>
  "locked_world =
     \<lparr>fs = \<lparr>dirs = {[''prisma'']},
             files = [[''prisma'', ''temp_schema.prisma''] \<mapsto> ''model Old {}''],
             readonly = {[''prisma'']}\<rparr>,
      llm_calls = 0, validate_calls = 0, fix_calls = 0, schema_writes = []\<rparr>"

lemmas example_defs =
  example_env_def example_manager_def example_world_def passing_def failing_def

lemmas fs_defs =
  open_truncate_def file_write_def open_read_def unlink_def path_exists_def parents_def
  is_file_def is_dir_def

section \<open>The artifact store\<close>

lemma read_write_translate:
  "CR \<notin> set X \<Longrightarrow> ls = [LF] \<or> ls = [CR, LF] \<Longrightarrow> read_translate (write_translate ls X) = X"
  by (induction X) auto

lemma write_translate_posix: "write_translate [LF] X = X"
  by (induction X) auto

lemma parents_length: "q \<in> set (parents p) \<Longrightarrow> length q < length p"
  by (auto simp: parents_def)

lemma not_in_parents: "p \<notin> set (parents p)"
  using parents_length[of p p] by blast

lemma walk_files_upd:
  "p \<notin> set qs \<Longrightarrow> walk (f\<lparr>files := (files f)(p := v)\<rparr>) qs = walk f qs"
  by (induction qs) (auto simp: is_file_def is_dir_def)

lemma walk_parents_upd [simp]:
  "walk (f\<lparr>files := (files f)(p := v)\<rparr>) (parents p) = walk f (parents p)"
  by (simp add: walk_files_upd not_in_parents)

lemma walk_None_iff:
  "walk f qs = None \<longleftrightarrow> (\<forall>q\<in>set qs. is_dir f q \<and> \<not> is_file f q)"
  by (induction qs) auto

lemma walk_errors:
  "walk f qs = Some e \<Longrightarrow> e = NotADirectoryError \<or> e = FileNotFoundError"
  by (induction qs) (auto split: if_splits)

lemma walk_missing:
  "\<not> list_ex (is_file f) qs \<Longrightarrow> q \<in> set qs \<Longrightarrow> \<not> is_dir f q \<Longrightarrow>
   walk f qs = Some FileNotFoundError"
  by (induction qs) (auto simp: list_ex_iff)

lemma get_after_set:
  assumes "set_schema ev m X w = (Inr (), w')"
  shows "get_schema m w' = Inr (read_translate (write_translate (os_linesep ev) X))"
  using assms
  by (auto simp: set_schema_def get_schema_def open_truncate_def file_write_def open_read_def
      path_exists_def is_file_def is_dir_def split: if_splits sum.splits option.splits)

lemma get_schema_never_missing: "get_schema m w \<noteq> Inl FileNotFoundError"
  by (auto simp: get_schema_def open_read_def path_exists_def is_file_def
      split: option.splits)

text \<open>
  Claim C7, as stated, fails: the file is opened in text mode, so a carriage return
  written by \<^verbatim>\<open>set_schema\<close> comes back from \<^verbatim>\<open>get_schema\<close> as a line feed.
\<close>

theorem round_trip_carriage_return_counterexample:
  "fst (set_schema (example_env passing) (example_manager None) [CR]
          (example_world {[''prisma'']})) = Inr () \<and>
   get_schema (example_manager None)
     (snd (set_schema (example_env passing) (example_manager None) [CR]
             (example_world {[''prisma'']}))) = Inr [LF] \<and>
   [LF] \<noteq> [CR]"
  by (simp add: set_schema_def get_schema_def fs_defs upt_rec example_defs)

text \<open>
  Claim C7, amended: for every string \<open>X\<close> without a carriage return, the empty string
  included, a \<^verbatim>\<open>set_schema(X)\<close> that returns is followed by a \<^verbatim>\<open>get_schema()\<close> that
  returns exactly \<open>X\<close>, on a platform whose line separator is \<^verbatim>\<open>\n\<close> or \<^verbatim>\<open>\r\n\<close>. For
  any \<open>X\<close>, what is read back is what universal-newline reading makes of \<open>X\<close> written
  with the platform's line separator for each line feed; where the separator is \<^verbatim>\<open>\n\<close>,
  this is \<open>X\<close> with each \<^verbatim>\<open>\r\n\<close> and each other \<^verbatim>\<open>\r\<close> turned into \<^verbatim>\<open>\n\<close>. With no
  artifact at the schema path, \<^verbatim>\<open>get_schema()\<close> returns the empty string, and it never
  fails with a missing-file error.
\<close>

theorem artifact_store_round_trip:
  "(set_schema ev m X w = (Inr (), w') \<longrightarrow>
      get_schema m w' = Inr (read_translate (write_translate (os_linesep ev) X)) \<and>
      (CR \<notin> set X \<and> (os_linesep ev = [LF] \<or> os_linesep ev = [CR, LF]) \<longrightarrow>
         get_schema m w' = Inr X) \<and>
      (os_linesep ev = [LF] \<longrightarrow> get_schema m w' = Inr (read_translate X))) \<and>
   (\<not> path_exists (fs w) (schema_path m) \<longrightarrow> get_schema m w = Inr []) \<and>
   get_schema m w \<noteq> Inl FileNotFoundError"
proof (intro conjI impI)
  assume s: "set_schema ev m X w = (Inr (), w')"
  then show g: "get_schema m w' = Inr (read_translate (write_translate (os_linesep ev) X))"
    by (rule get_after_set)
  {
    assume "CR \<notin> set X \<and> (os_linesep ev = [LF] \<or> os_linesep ev = [CR, LF])"
    with g show "get_schema m w' = Inr X" by (simp add: read_write_translate)
  }
  {
    assume "os_linesep ev = [LF]"
    with g show "get_schema m w' = Inr (read_translate X)"
      by (simp add: write_translate_posix)
  }
next
  assume "\<not> path_exists (fs w) (schema_path m)"
  then show "get_schema m w = Inr []" by (simp add: get_schema_def)
next
  show "get_schema m w \<noteq> Inl FileNotFoundError" by (rule get_schema_never_missing)
qed

theorem artifact_store_round_trip_witness:
  "set_schema (example_env passing) (example_manager None) ''model A {}\<newline>''
     (example_world {[''prisma'']}) =
     (Inr (), (example_world {[''prisma'']})
        \<lparr>fs := \<lparr>dirs = {[''prisma'']},
                files = [[''prisma'', ''schema.prisma''] \<mapsto> ''model A {}\<newline>''],
                readonly = {}\<rparr>,
         schema_writes := [''model A {}\<newline>'']\<rparr>) \<and>
   CR \<notin> set ''model A {}\<newline>'' \<and> os_linesep (example_env passing) = [LF] \<and>
   get_schema (example_manager None) ((example_world {[''prisma'']})
        \<lparr>fs := \<lparr>dirs = {[''prisma'']},
                files = [[''prisma'', ''schema.prisma''] \<mapsto> ''model A {}\<newline>''],
                readonly = {}\<rparr>,
         schema_writes := [''model A {}\<newline>'']\<rparr>) = Inr ''model A {}\<newline>'' \<and>
   \<not> path_exists (fs (example_world {[''prisma'']})) (schema_path (example_manager None)) \<and>
   get_schema (example_manager None) (example_world {[''prisma'']}) = Inr []"
  using artifact_store_round_trip
    [of "example_env passing" "example_manager None" "''model A {}\<newline>''"
        "example_world {[''prisma'']}"
        "(example_world {[''prisma'']})
           \<lparr>fs := \<lparr>dirs = {[''prisma'']},
                   files = [[''prisma'', ''schema.prisma''] \<mapsto> ''model A {}\<newline>''],
                   readonly = {}\<rparr>,
            schema_writes := [''model A {}\<newline>'']\<rparr>"]
  by (simp add: set_schema_def fs_defs upt_rec example_defs)

lemma set_schema_dirs: "dirs (fs (snd (set_schema ev m X w))) = dirs (fs w)"
  by (auto simp: set_schema_def open_truncate_def file_write_def
      split: sum.splits option.splits if_splits)

lemma self_in_ancestors: "p = [] \<or> p \<in> set (ancestors p)"
proof (cases "p = []")
  case True
  then show ?thesis by simp
next
  case False
  then have "length p \<in> set [1..<Suc (length p)]" by (cases p) auto
  then have "take (length p) p \<in> set (ancestors p)"
    unfolding ancestors_def set_map by (rule imageI)
  then show ?thesis by simp
qed

lemma butlast_in_parents: "butlast p = [] \<or> butlast p \<in> set (parents p)"
proof (cases "butlast p = []")
  case True
  then show ?thesis by simp
next
  case False
  have "length p - 1 \<in> set [1..<length p]"
  proof (cases p)
    case Nil
    with False show ?thesis by simp
  next
    case (Cons a list)
    with False have "list \<noteq> []" by (auto split: if_splits)
    with Cons show ?thesis by (cases list) auto
  qed
  then have "take (length p - 1) p \<in> set (parents p)"
    unfolding parents_def set_map by (rule imageI)
  then show ?thesis by (simp add: butlast_conv_take)
qed

lemma mkdir_walk_ok:
  "mkdir_walk p qs f = (None, f') \<Longrightarrow>
   files f' = files f \<and> readonly f' = readonly f \<and> dirs f \<subseteq> dirs f' \<and>
   set qs \<subseteq> insert [] (dirs f')"
proof (induction qs arbitrary: f)
  case Nil
  then show ?case by simp
next
  case (Cons q qs)
  show ?case
  proof (cases "is_dir f q")
    case True
    with Cons.prems have "mkdir_walk p qs f = (None, f')" by (simp split: if_splits)
    from Cons.IH[OF this] True show ?thesis by (auto simp: is_dir_def)
  next
    case False
    with Cons.prems have "mkdir_walk p qs (f\<lparr>dirs := insert q (dirs f)\<rparr>) = (None, f')"
      by (simp split: if_splits)
    from Cons.IH[OF this] show ?thesis by auto
  qed
qed

lemma init_creates_directory:
  assumes "SchemaManager_init sdir sfile llm w0 = (Inr m, w)"
  shows "schema_dir m = sdir" and "schema_path m = sdir @ sfile"
    and "is_dir (fs w) sdir" and "set (ancestors sdir) \<subseteq> insert [] (dirs (fs w))"
    and "files (fs w) = files (fs w0)"
proof -
  obtain f' where k: "mkdir_walk sdir (ancestors sdir) (fs w0) = (None, f')"
    and m: "m = \<lparr>schema_dir = sdir, schema_file = sfile, schema_path = sdir @ sfile,
                 llm_client = llm\<rparr>"
    and w: "w = w0\<lparr>fs := f'\<rparr>"
    using assms
    by (auto simp: SchemaManager_init_def mkdir_parents_def split: prod.splits option.splits)
  note ok = mkdir_walk_ok[OF k]
  from m show "schema_dir m = sdir" and "schema_path m = sdir @ sfile" by simp_all
  from ok w show "set (ancestors sdir) \<subseteq> insert [] (dirs (fs w))"
    and "files (fs w) = files (fs w0)" by simp_all
  from ok w self_in_ancestors[of sdir] show "is_dir (fs w) sdir"
    by (auto simp: is_dir_def)
qed

lemma set_schema_ok:
  assumes "walk (fs w) (parents (schema_path m)) = None"
    and "\<not> is_dir (fs w) (schema_path m)"
    and "if is_file (fs w) (schema_path m) then schema_path m \<notin> readonly (fs w)
         else butlast (schema_path m) \<notin> readonly (fs w)"
    and "encodable ev X"
  shows "set_schema ev m X w =
           (Inr (), w\<lparr>fs := (fs w)\<lparr>files := (files (fs w))
                                (schema_path m \<mapsto> write_translate (os_linesep ev) X)\<rparr>,
                      schema_writes := X # schema_writes w\<rparr>)"
  using assms
  by (auto simp: set_schema_def open_truncate_def file_write_def split: if_splits)

lemma set_schema_missing:
  assumes "\<not> list_ex (is_file (fs w)) (parents (schema_path m))"
    and "\<not> is_dir (fs w) (butlast (schema_path m))"
  shows "set_schema ev m X w = (Inl FileNotFoundError, w)"
proof -
  from assms(2) butlast_in_parents[of "schema_path m"]
  have "butlast (schema_path m) \<in> set (parents (schema_path m))"
    by (auto simp: is_dir_def)
  with assms have "walk (fs w) (parents (schema_path m)) = Some FileNotFoundError"
    by (auto intro: walk_missing)
  then show ?thesis by (simp add: set_schema_def open_truncate_def)
qed

text \<open>
  Claim C8, as stated, fails: \<^verbatim>\<open>set_schema\<close> only opens the file for writing. When the
  schema directory does not exist at the time of the call, it raises
  \<^verbatim>\<open>FileNotFoundError\<close> and creates nothing.
\<close>

theorem set_schema_missing_directory_counterexample:
  "\<not> is_dir (fs (example_world {})) (schema_dir (example_manager None)) \<and>
   set_schema (example_env passing) (example_manager None) ''model A {}'' (example_world {}) =
     (Inl FileNotFoundError, example_world {})"
  by (simp add: set_schema_def fs_defs upt_rec example_defs)

text \<open>
  Claim C8, amended: the storage directory, with any missing parent, is created by the
  constructor \<^verbatim>\<open>SchemaManager.__init__\<close> (when it returns), not by \<^verbatim>\<open>set_schema\<close>, which
  never creates a directory. For every content string that the encoding of text files
  can encode, \<^verbatim>\<open>set_schema\<close> creates the file or fully overwrites its content when, at the
  time of the call, every directory above the schema file exists, the schema path is
  not itself a directory, and writing is permitted (to the file when it exists, to its
  directory when it does not). When the directory of the schema file does not exist,
  and no directory above it is a regular file, \<^verbatim>\<open>set_schema\<close> fails with a missing-file
  error and changes nothing.
\<close>

theorem set_schema_directory:
  "(SchemaManager_init sdir sfile llm w0 = (Inr m0, w1) \<longrightarrow>
      is_dir (fs w1) (schema_dir m0) \<and> set (ancestors sdir) \<subseteq> insert [] (dirs (fs w1))) \<and>
   dirs (fs (snd (set_schema ev m X w))) = dirs (fs w) \<and>
   (walk (fs w) (parents (schema_path m)) = None \<and> \<not> is_dir (fs w) (schema_path m) \<and>
    (if is_file (fs w) (schema_path m) then schema_path m \<notin> readonly (fs w)
     else butlast (schema_path m) \<notin> readonly (fs w)) \<and>
    encodable ev X \<longrightarrow>
      set_schema ev m X w =
        (Inr (), w\<lparr>fs := (fs w)\<lparr>files := (files (fs w))
                             (schema_path m \<mapsto> write_translate (os_linesep ev) X)\<rparr>,
                   schema_writes := X # schema_writes w\<rparr>)) \<and>
   (\<not> list_ex (is_file (fs w)) (parents (schema_path m)) \<and>
    \<not> is_dir (fs w) (butlast (schema_path m)) \<longrightarrow>
      set_schema ev m X w = (Inl FileNotFoundError, w))"
proof (intro conjI impI)
  assume "SchemaManager_init sdir sfile llm w0 = (Inr m0, w1)"
  from init_creates_directory[OF this]
  show "is_dir (fs w1) (schema_dir m0)"
    and "set (ancestors sdir) \<subseteq> insert [] (dirs (fs w1))" by simp_all
next
  show "dirs (fs (snd (set_schema ev m X w))) = dirs (fs w)" by (rule set_schema_dirs)
next
  assume "walk (fs w) (parents (schema_path m)) = None \<and> \<not> is_dir (fs w) (schema_path m) \<and>
    (if is_file (fs w) (schema_path m) then schema_path m \<notin> readonly (fs w)
     else butlast (schema_path m) \<notin> readonly (fs w)) \<and>
    encodable ev X"
  then show "set_schema ev m X w =
        (Inr (), w\<lparr>fs := (fs w)\<lparr>files := (files (fs w))
                             (schema_path m \<mapsto> write_translate (os_linesep ev) X)\<rparr>,
                   schema_writes := X # schema_writes w\<rparr>)"
    by (intro set_schema_ok) simp_all
next
  assume "\<not> list_ex (is_file (fs w)) (parents (schema_path m)) \<and>
          \<not> is_dir (fs w) (butlast (schema_path m))"
  then show "set_schema ev m X w = (Inl FileNotFoundError, w)"
    by (intro set_schema_missing) simp_all
qed

theorem set_schema_directory_witness:
  "SchemaManager_init [''prisma''] [''schema.prisma''] None (example_world {}) =
     (Inr (example_manager None), example_world {[''prisma'']}) \<and>
   is_dir (fs (example_world {[''prisma'']})) (schema_dir (example_manager None)) \<and>
   set_schema (example_env passing) (example_manager None) ''model A {}''
       (example_world {[''prisma'']}) =
     (Inr (), (example_world {[''prisma'']})
        \<lparr>fs := \<lparr>dirs = {[''prisma'']},
                files = [[''prisma'', ''schema.prisma''] \<mapsto> ''model A {}''],
                readonly = {}\<rparr>,
         schema_writes := [''model A {}'']\<rparr>) \<and>
   set_schema (example_env passing) (example_manager None) ''model A {}'' (example_world {}) =
     (Inl FileNotFoundError, example_world {})"
  using set_schema_directory
    [of "[''prisma'']" "[''schema.prisma'']" None "example_world {}" "example_manager None"
        "example_world {[''prisma'']}" "example_env passing" "example_manager None"
        "''model A {}''" "example_world {[''prisma'']}"]
    set_schema_directory
    [of "[''prisma'']" "[''schema.prisma'']" None "example_world {}" "example_manager None"
        "example_world {[''prisma'']}" "example_env passing" "example_manager None"
        "''model A {}''" "example_world {}"]
  by (simp add: SchemaManager_init_def mkdir_parents_def ancestors_def upt_rec fs_defs
      example_defs)

section \<open>The validator adapter\<close>

lemma py_or_unfold:
  "py_or a (py_or b c) = (if a \<noteq> [] then a else if b \<noteq> [] then b else c)"
  by (simp add: py_or_def)

lemma body_by_stage:
  "fst (prisma_validate_body ev m c w) =
     (case validation_stage ev m c w of
        NotWritten e \<Rightarrow> Inl e
      | NotLaunched e \<Rightarrow> Inl e
      | NotRemoved p e \<Rightarrow> Inl e
      | Done p \<Rightarrow>
          Inr (if returncode p = 0 then (True, [])
               else (False, py_or (stderr p) (py_or (stdout p) ''Unknown validation error''))))"
  by (simp add: prisma_validate_body_def validation_stage_def split: sum.splits)

lemma run_by_body:
  "fst (run_prisma_validate ev m c w) =
     (case fst (prisma_validate_body ev m c w) of Inr r \<Rightarrow> r | Inl e \<Rightarrow> handled ev e)"
  by (cases "prisma_validate_body ev m c w")
     (auto simp: run_prisma_validate_def handled_def split: sum.splits exn.splits)

lemma run_by_stage:
  "fst (run_prisma_validate ev m c w) =
     (case validation_stage ev m c w of
        NotWritten e \<Rightarrow> handled ev e
      | NotLaunched e \<Rightarrow> handled ev e
      | NotRemoved p e \<Rightarrow> handled ev e
      | Done p \<Rightarrow>
          if returncode p = 0 then (True, [])
          else (False, py_or (stderr p) (py_or (stdout p) ''Unknown validation error'')))"
  by (simp add: run_by_body body_by_stage split: validation_stage.splits)

lemma passed_iff_done:
  "fst (fst (run_prisma_validate ev m c w)) \<longleftrightarrow>
     (\<exists>p. validation_stage ev m c w = Done p \<and> returncode p = 0)"
  by (simp add: run_by_stage handled_def split: validation_stage.splits)


lemmas run_defs =
  run_prisma_validate_def prisma_validate_body_def temp_schema_path_def py_or_def

text \<open>
  Claim C3 fails on the code. The clean-up \<^verbatim>\<open>temp_schema_path.unlink()\<close> stands after
  \<^verbatim>\<open>subprocess.run\<close> inside the \<^verbatim>\<open>try\<close> block, not in a \<^verbatim>\<open>finally\<close>: when launching the
  process raises (here: no \<^verbatim>\<open>prisma\<close> executable), the handler returns the diagnostic and
  the temporary file, absent before the call, is left behind with the candidate in it.
  On the same input with a validator that runs and rejects the candidate, the file is
  removed.
\<close>

theorem run_prisma_validate_leaves_temp_file:
  "files (fs (example_world {[''prisma'']})) (temp_schema_path (example_manager None)) = None \<and>
   run_prisma_validate (example_env (Inl FileNotFoundError)) (example_manager None)
       ''model A {}'' (example_world {[''prisma'']}) =
     ((False, prisma_not_found),
      (example_world {[''prisma'']})
        \<lparr>fs := \<lparr>dirs = {[''prisma'']},
                files = [[''prisma'', ''temp_schema.prisma''] \<mapsto> ''model A {}''],
                readonly = {}\<rparr>,
         validate_calls := 1\<rparr>) \<and>
   run_prisma_validate (example_env failing) (example_manager None)
       ''model A {}'' (example_world {[''prisma'']}) =
     ((False, ''missing id field''), (example_world {[''prisma'']})\<lparr>validate_calls := 1\<rparr>)"
  by (simp add: run_defs fs_defs upt_rec example_defs)

text \<open>
  Claim C4, as stated, fails twice. An executable that is found but cannot be launched
  (here: a permission error of \<^verbatim>\<open>subprocess.run\<close>) gives the diagnostic of the general
  handler, which says nothing of a missing tool or of its installation. And a process
  that exits with status zero does not give \<^verbatim>\<open>(True, "")\<close> when the removal of the
  temporary file raises (here: the file was left by an earlier run and its directory
  has become read-only).
\<close>

theorem run_prisma_validate_launch_counterexample:
  "run_prisma_validate (example_env (Inl PermissionError)) (example_manager None)
       ''model A {}'' (example_world {[''prisma'']}) =
     ((False, ''Error running prisma validate: [Errno 13] Permission denied''),
      (example_world {[''prisma'']})
        \<lparr>fs := \<lparr>dirs = {[''prisma'']},
                files = [[''prisma'', ''temp_schema.prisma''] \<mapsto> ''model A {}''],
                readonly = {}\<rparr>,
         validate_calls := 1\<rparr>) \<and>
   validation_stage (example_env passing) (example_manager None) ''model A {}'' locked_world =
     NotRemoved (CompletedProcess 0 [] []) PermissionError \<and>
   fst (run_prisma_validate (example_env passing) (example_manager None) ''model A {}''
          locked_world) =
     (False, ''Error running prisma validate: [Errno 13] Permission denied'')"
  by (simp add: run_defs validation_stage_def fs_defs upt_rec example_defs locked_world_def)

text \<open>
  Claim C4, amended: \<^verbatim>\<open>_run_prisma_validate\<close> returns \<^verbatim>\<open>(True, "")\<close> if and only if the
  temporary file was written, the external process ran and exited with status zero,
  and the removal of the temporary file did not raise. When all was done and the
  process exited with another status, the result is \<^verbatim>\<open>False\<close> with the process's error
  output, or else its standard output, or else \<^verbatim>\<open>"Unknown validation error"\<close>. When a
  step raises \<^verbatim>\<open>FileNotFoundError\<close> (the executable is not found, or the directory of the
  temporary file is missing), the result is \<^verbatim>\<open>False\<close> with the text that says that the
  tool is missing and how to install it. When a step raises any other exception (the
  process cannot be launched for another reason, the temporary file cannot be written
  or removed), the result is \<^verbatim>\<open>False\<close> with \<^verbatim>\<open>"Error running prisma validate: "\<close> and
  the exception's message. The function returns a pair in every case: no exception
  leaves it.
\<close>

theorem run_prisma_validate_result:
  "(fst (fst (run_prisma_validate ev m c w)) \<longleftrightarrow>
      (\<exists>p. validation_stage ev m c w = Done p \<and> returncode p = 0)) \<and>
   (fst (fst (run_prisma_validate ev m c w)) \<longrightarrow>
      snd (fst (run_prisma_validate ev m c w)) = []) \<and>
   (validation_stage ev m c w = Done (CompletedProcess rc out err) \<and> rc \<noteq> 0 \<longrightarrow>
      fst (run_prisma_validate ev m c w) =
        (False, if err \<noteq> [] then err else if out \<noteq> [] then out
                else ''Unknown validation error'')) \<and>
   (validation_stage ev m c w \<in>
      {NotWritten FileNotFoundError, NotLaunched FileNotFoundError,
       NotRemoved p FileNotFoundError} \<longrightarrow>
      fst (run_prisma_validate ev m c w) =
        (False, ''Prisma CLI not found. Please install Prisma:\<newline>'' @
                ''  Python: pip install prisma\<newline>'' @
                ''  Node.js: npm install -g prisma'')) \<and>
   (validation_stage ev m c w \<in> {NotWritten e, NotLaunched e, NotRemoved p e} \<and>
    e \<noteq> FileNotFoundError \<longrightarrow>
      fst (run_prisma_validate ev m c w) =
        (False, ''Error running prisma validate: '' @ exn_str ev e))"
proof (intro conjI impI)
  show "fst (fst (run_prisma_validate ev m c w)) \<longleftrightarrow>
          (\<exists>p. validation_stage ev m c w = Done p \<and> returncode p = 0)"
    by (rule passed_iff_done)
next
  assume "fst (fst (run_prisma_validate ev m c w))"
  then show "snd (fst (run_prisma_validate ev m c w)) = []"
    by (auto simp: run_by_stage handled_def split: validation_stage.splits if_splits)
next
  assume "validation_stage ev m c w = Done (CompletedProcess rc out err) \<and> rc \<noteq> 0"
  then show "fst (run_prisma_validate ev m c w) =
        (False, if err \<noteq> [] then err else if out \<noteq> [] then out
                else ''Unknown validation error'')"
    by (simp add: run_by_stage py_or_unfold)
next
  assume "validation_stage ev m c w \<in>
      {NotWritten FileNotFoundError, NotLaunched FileNotFoundError,
       NotRemoved p FileNotFoundError}"
  then show "fst (run_prisma_validate ev m c w) =
        (False, ''Prisma CLI not found. Please install Prisma:\<newline>'' @
                ''  Python: pip install prisma\<newline>'' @
                ''  Node.js: npm install -g prisma'')"
    unfolding prisma_not_found_def[symmetric]
    by (auto simp: run_by_stage handled_def)
next
  assume "validation_stage ev m c w \<in> {NotWritten e, NotLaunched e, NotRemoved p e} \<and>
          e \<noteq> FileNotFoundError"
  then show "fst (run_prisma_validate ev m c w) =
        (False, ''Error running prisma validate: '' @ exn_str ev e)"
    by (auto simp: run_by_stage handled_def)
qed

lemma example_stage:
  "validation_stage (example_env outcome) (example_manager llm) c (example_world {[''prisma'']}) =
     (case outcome of Inl e \<Rightarrow> NotLaunched e | Inr p \<Rightarrow> Done p)"
  by (simp add: validation_stage_def temp_schema_path_def fs_defs upt_rec example_defs
      split: sum.splits)

theorem run_prisma_validate_result_witness:
  "fst (run_prisma_validate (example_env passing) (example_manager None) ''model A {}''
          (example_world {[''prisma'']})) = (True, []) \<and>
   fst (run_prisma_validate (example_env failing) (example_manager None) ''model A {}''
          (example_world {[''prisma'']})) = (False, ''missing id field'') \<and>
   fst (run_prisma_validate (example_env (Inr (CompletedProcess 1 ''rejected'' [])))
          (example_manager None) ''model A {}'' (example_world {[''prisma'']})) =
     (False, ''rejected'') \<and>
   fst (run_prisma_validate (example_env (Inr (CompletedProcess 2 [] [])))
          (example_manager None) ''model A {}'' (example_world {[''prisma'']})) =
     (False, ''Unknown validation error'') \<and>
   fst (run_prisma_validate (example_env (Inl FileNotFoundError)) (example_manager None)
          ''model A {}'' (example_world {[''prisma'']})) = (False, prisma_not_found) \<and>
   validation_stage (example_env passing) (example_manager None) ''model A {}''
          (example_world {}) = NotWritten FileNotFoundError \<and>
   fst (run_prisma_validate (example_env passing) (example_manager None)
          ''model A {}'' (example_world {})) = (False, prisma_not_found) \<and>
   fst (run_prisma_validate (example_env (Inl PermissionError)) (example_manager None)
          ''model A {}'' (example_world {[''prisma'']})) =
     (False, ''Error running prisma validate: [Errno 13] Permission denied'') \<and>
   validation_stage (example_env passing) (example_manager None) ''model A {}'' locked_world =
     NotRemoved (CompletedProcess 0 [] []) PermissionError \<and>
   fst (run_prisma_validate (example_env passing) (example_manager None)
          ''model A {}'' locked_world) =
     (False, ''Error running prisma validate: [Errno 13] Permission denied'')"
proof -
  have a: "validation_stage (example_env passing) (example_manager None) ''model A {}''
             (example_world {}) = NotWritten FileNotFoundError"
    by (simp add: validation_stage_def temp_schema_path_def fs_defs upt_rec example_defs)
  have b: "validation_stage (example_env passing) (example_manager None) ''model A {}''
             locked_world = NotRemoved (CompletedProcess 0 [] []) PermissionError"
    by (simp add: validation_stage_def temp_schema_path_def fs_defs upt_rec example_defs
        locked_world_def)
  have s: "exn_str (example_env outcome) PermissionError = ''[Errno 13] Permission denied''"
    for outcome by (simp add: example_env_def)
  have c1: "fst (run_prisma_validate (example_env passing) (example_manager None) ''model A {}''
          (example_world {[''prisma'']})) =
      (True, [])"
    using run_prisma_validate_result [of "example_env passing" "example_manager None"
        "''model A {}''" "example_world {[''prisma'']}" 1 "[]" "[]" undefined undefined]
    unfolding prisma_not_found_def[symmetric]
    by (simp add: example_stage a[unfolded passing_def] b[unfolded passing_def] s
        passing_def failing_def prod_eq_iff)
  have c2: "fst (run_prisma_validate (example_env failing) (example_manager None) ''model A {}''
          (example_world {[''prisma'']})) =
      (False, ''missing id field'')"
    using run_prisma_validate_result [of "example_env failing" "example_manager None"
        "''model A {}''" "example_world {[''prisma'']}" 1 "[]" "''missing id field''" undefined undefined]
    unfolding prisma_not_found_def[symmetric]
    by (simp add: example_stage a[unfolded passing_def] b[unfolded passing_def] s
        passing_def failing_def prod_eq_iff)
  have c3: "fst (run_prisma_validate (example_env (Inr (CompletedProcess 1 ''rejected'' []))) (example_manager None) ''model A {}''
          (example_world {[''prisma'']})) =
      (False, ''rejected'')"
    using run_prisma_validate_result [of "example_env (Inr (CompletedProcess 1 ''rejected'' []))" "example_manager None"
        "''model A {}''" "example_world {[''prisma'']}" 1 "''rejected''" "[]" undefined undefined]
    unfolding prisma_not_found_def[symmetric]
    by (simp add: example_stage a[unfolded passing_def] b[unfolded passing_def] s
        passing_def failing_def prod_eq_iff)
  have c4: "fst (run_prisma_validate (example_env (Inr (CompletedProcess 2 [] []))) (example_manager None) ''model A {}''
          (example_world {[''prisma'']})) =
      (False, ''Unknown validation error'')"
    using run_prisma_validate_result [of "example_env (Inr (CompletedProcess 2 [] []))" "example_manager None"
        "''model A {}''" "example_world {[''prisma'']}" 2 "[]" "[]" undefined undefined]
    unfolding prisma_not_found_def[symmetric]
    by (simp add: example_stage a[unfolded passing_def] b[unfolded passing_def] s
        passing_def failing_def prod_eq_iff)
  have c5: "fst (run_prisma_validate (example_env (Inl FileNotFoundError)) (example_manager None) ''model A {}''
          (example_world {[''prisma'']})) =
      (False, prisma_not_found)"
    using run_prisma_validate_result [of "example_env (Inl FileNotFoundError)" "example_manager None"
        "''model A {}''" "example_world {[''prisma'']}" 1 "[]" "[]" undefined PermissionError]
    unfolding prisma_not_found_def[symmetric]
    by (simp add: example_stage a[unfolded passing_def] b[unfolded passing_def] s
        passing_def failing_def prod_eq_iff)
  have c6: "fst (run_prisma_validate (example_env passing) (example_manager None) ''model A {}''
          (example_world {})) =
      (False, prisma_not_found)"
    using run_prisma_validate_result [of "example_env passing" "example_manager None"
        "''model A {}''" "example_world {}" 1 "[]" "[]" undefined PermissionError]
    unfolding prisma_not_found_def[symmetric]
    by (simp add: example_stage a[unfolded passing_def] b[unfolded passing_def] s
        passing_def failing_def prod_eq_iff)
  have c7: "fst (run_prisma_validate (example_env (Inl PermissionError)) (example_manager None) ''model A {}''
          (example_world {[''prisma'']})) =
      (False, ''Error running prisma validate: [Errno 13] Permission denied'')"
    using run_prisma_validate_result [of "example_env (Inl PermissionError)" "example_manager None"
        "''model A {}''" "example_world {[''prisma'']}" 1 "[]" "[]" undefined PermissionError]
    unfolding prisma_not_found_def[symmetric]
    by (simp add: example_stage a[unfolded passing_def] b[unfolded passing_def] s
        passing_def failing_def prod_eq_iff)
  have c8: "fst (run_prisma_validate (example_env passing) (example_manager None) ''model A {}''
          (locked_world)) =
      (False, ''Error running prisma validate: [Errno 13] Permission denied'')"
    using run_prisma_validate_result [of "example_env passing" "example_manager None"
        "''model A {}''" locked_world 1 "[]" "[]" "CompletedProcess 0 [] []" PermissionError]
    unfolding prisma_not_found_def[symmetric]
    by (simp add: example_stage a[unfolded passing_def] b[unfolded passing_def] s
        passing_def failing_def prod_eq_iff)
  from c1 c2 c3 c4 c5 a c6 c7 b c8 show ?thesis by (intro conjI)
qed

section \<open>The repair requester\<close>

text \<open>
  Claim C6: \<^verbatim>\<open>_fix_schema_with_llm\<close> returns the candidate unchanged when no LLM client is
  configured, and when the client raises; it returns a string in every case, so it
  never raises, and it leaves the file system as it was.
\<close>

theorem fix_schema_with_llm_fallback:
  "(llm_client m = None \<longrightarrow> fst (fix_schema_with_llm m c d w) = c) \<and>
   (llm_client m = Some llm \<and>
      llm (llm_calls w) (fix_prompt c d) fix_system_message = Inl e \<longrightarrow>
      fst (fix_schema_with_llm m c d w) = c) \<and>
   fs (snd (fix_schema_with_llm m c d w)) = fs w"
  by (auto simp: fix_schema_with_llm_def chat_completion_def split: option.splits sum.splits)

theorem fix_schema_with_llm_fallback_witness:
  "fst (fix_schema_with_llm (example_manager None) ''model A {}'' ''missing id field''
          (example_world {[''prisma'']})) = ''model A {}'' \<and>
   unreachable 0 (fix_prompt ''model A {}'' ''missing id field'') fix_system_message =
     Inl (OtherException ''connection error'') \<and>
   fst (fix_schema_with_llm (example_manager (Some unreachable)) ''model A {}''
          ''missing id field'' (example_world {[''prisma'']})) = ''model A {}''"
  using
    fix_schema_with_llm_fallback [of "example_manager None" "''model A {}''"
      "''missing id field''" "example_world {[''prisma'']}" unreachable
      "OtherException ''connection error''"]
    fix_schema_with_llm_fallback [of "example_manager (Some unreachable)" "''model A {}''"
      "''missing id field''" "example_world {[''prisma'']}" unreachable
      "OtherException ''connection error''"]
  by (simp add: example_manager_def example_world_def unreachable_def)

section \<open>Stripping code fences\<close>

lemma startswith_iff: "startswith s p \<longleftrightarrow> (\<exists>r. s = p @ r)"
  by (induction s p rule: startswith.induct) auto

lemma py_in_iff: "py_in sub s \<longleftrightarrow> (\<exists>a b. s = a @ sub @ b)"
proof (induction s)
  case Nil
  then show ?case by auto
next
  case (Cons c cs)
  show ?case
  proof
    assume "py_in sub (c # cs)"
    then consider "startswith (c # cs) sub" | "py_in sub cs" by auto
    then show "\<exists>a b. c # cs = a @ sub @ b"
    proof cases
      case 1
      then obtain r where "c # cs = sub @ r" by (auto simp: startswith_iff)
      then have "c # cs = [] @ sub @ r" by simp
      then show ?thesis by blast
    next
      case 2
      then obtain a b where "cs = a @ sub @ b" using Cons.IH by auto
      then have "c # cs = (c # a) @ sub @ b" by simp
      then show ?thesis by blast
    qed
  next
    assume "\<exists>a b. c # cs = a @ sub @ b"
    then obtain a b where ab: "c # cs = a @ sub @ b" by blast
    show "py_in sub (c # cs)"
    proof (cases a)
      case Nil
      with ab have "startswith (c # cs) sub" by (auto simp: startswith_iff)
      then show ?thesis by simp
    next
      case (Cons x a')
      with ab have "cs = a' @ sub @ b" by simp
      then have "py_in sub cs" using Cons.IH by blast
      then show ?thesis by simp
    qed
  qed
qed

lemma py_strip_decompose:
  "s = takeWhile isspace s @ py_strip s @ rev (takeWhile isspace (rev (dropWhile isspace s)))"
proof -
  let ?t = "dropWhile isspace s"
  have "rev ?t = takeWhile isspace (rev ?t) @ dropWhile isspace (rev ?t)" by simp
  then have "?t = rev (dropWhile isspace (rev ?t)) @ rev (takeWhile isspace (rev ?t))"
    by (metis rev_append rev_rev_ident)
  moreover have "s = takeWhile isspace s @ ?t" by simp
  ultimately show ?thesis by (simp add: py_strip_def)
qed

lemma py_strip_ends:
  assumes "py_strip s \<noteq> []"
  shows "\<not> isspace (hd (py_strip s))" and "\<not> isspace (last (py_strip s))"
proof -
  let ?t = "dropWhile isspace s"
  let ?u = "dropWhile isspace (rev ?t)"
  from assms have u: "?u \<noteq> []" by (simp add: py_strip_def)
  then have "\<not> isspace (hd ?u)" by (rule hd_dropWhile)
  then show "\<not> isspace (last (py_strip s))" using u by (simp add: py_strip_def last_rev)
  have t: "?t \<noteq> []"
  proof
    assume e: "?t = []"
    show False using u unfolding e by simp
  qed
  then have nt: "\<not> isspace (hd ?t)" by (rule hd_dropWhile)
  have "?t = rev ?u @ rev (takeWhile isspace (rev ?t))"
    by (metis rev_append rev_rev_ident takeWhile_dropWhile_id)
  then have "hd ?t = hd (rev ?u)" using u by (metis hd_append2 rev_is_Nil_conv)
  with nt show "\<not> isspace (hd (py_strip s))" by (simp add: py_strip_def)
qed

lemma py_strip_idem: "py_strip (py_strip s) = py_strip s"
proof (cases "py_strip s = []")
  case True
  have "py_strip [] = []" by (simp add: py_strip_def)
  with True show ?thesis by simp
next
  case False
  then have h: "\<not> isspace (hd (py_strip s))" and l: "\<not> isspace (last (py_strip s))"
    by (rule py_strip_ends)+
  from False h have 1: "dropWhile isspace (py_strip s) = py_strip s"
    by (cases "py_strip s") auto
  from False l have 2: "dropWhile isspace (rev (py_strip s)) = rev (py_strip s)"
    by (cases "rev (py_strip s)") (auto simp: last_rev[symmetric] hd_rev)
  show ?thesis
    unfolding py_strip_def[of "py_strip s"] 1 2 by simp
qed

lemma py_strip_no_fence: "\<not> py_in sub s \<Longrightarrow> \<not> py_in sub (py_strip s)"
proof
  assume n: "\<not> py_in sub s" and "py_in sub (py_strip s)"
  then obtain a b where "py_strip s = a @ sub @ b" by (auto simp: py_in_iff)
  then have "s = (takeWhile isspace s @ a) @ sub @
                 (b @ rev (takeWhile isspace (rev (dropWhile isspace s))))"
    using py_strip_decompose[of s] by simp
  then have "py_in sub s" unfolding py_in_iff by blast
  with n show False by simp
qed

text \<open>
  Claim C9: on a reply without a triple backtick, the stripping step only trims: the
  result is the reply without its leading and trailing white space, and stripping the
  result again changes nothing.
\<close>

theorem extract_schema_without_fence:
  assumes "\<not> py_in fence reply"
  shows "extract_schema reply = py_strip reply \<and>
         extract_schema (extract_schema reply) = extract_schema reply \<and>
         (\<exists>l r. reply = l @ extract_schema reply @ r \<and>
                (\<forall>c\<in>set l. isspace c) \<and> (\<forall>c\<in>set r. isspace c)) \<and>
         (extract_schema reply \<noteq> [] \<longrightarrow>
            \<not> isspace (hd (extract_schema reply)) \<and> \<not> isspace (last (extract_schema reply)))"
proof -
  have e: "extract_schema reply = py_strip reply"
    using assms by (simp add: extract_schema_def)
  have "\<not> py_in fence (py_strip reply)" using assms by (rule py_strip_no_fence)
  then have i: "extract_schema (py_strip reply) = py_strip reply"
    by (simp add: extract_schema_def py_strip_idem)
  have d: "reply = takeWhile isspace reply @ py_strip reply @
                   rev (takeWhile isspace (rev (dropWhile isspace reply)))"
    by (rule py_strip_decompose)
  have l: "\<forall>c\<in>set (takeWhile isspace reply). isspace c"
    by (auto dest: set_takeWhileD)
  have r: "\<forall>c\<in>set (rev (takeWhile isspace (rev (dropWhile isspace reply)))). isspace c"
    by (auto dest: set_takeWhileD)
  from d l r have "\<exists>l r. reply = l @ py_strip reply @ r \<and>
                (\<forall>c\<in>set l. isspace c) \<and> (\<forall>c\<in>set r. isspace c)" by blast
  with e i py_strip_ends[of reply] show ?thesis by simp
qed

theorem extract_schema_without_fence_witness:
  "\<not> py_in fence ''  model A {}\<newline>'' \<and>
   extract_schema ''  model A {}\<newline>'' = py_strip ''  model A {}\<newline>'' \<and>
   extract_schema ''  model A {}\<newline>'' = ''model A {}'' \<and>
   extract_schema (extract_schema ''  model A {}\<newline>'') = extract_schema ''  model A {}\<newline>''"
proof -
  have h: "\<not> py_in fence ''  model A {}\<newline>''" by (simp add: fence_def)
  have p: "py_strip ''  model A {}\<newline>'' = ''model A {}''"
    by (simp add: py_strip_def isspace_def)
  from extract_schema_without_fence[OF h]
  have e: "extract_schema ''  model A {}\<newline>'' = py_strip ''  model A {}\<newline>''"
    and i: "extract_schema (extract_schema ''  model A {}\<newline>'') =
            extract_schema ''  model A {}\<newline>''"
    by blast+
  from e have "extract_schema ''  model A {}\<newline>'' = ''model A {}''"
    by (simp only: p)
  with h e i show ?thesis by blast
qed

section \<open>The orchestrator\<close>

lemma body_counts:
  assumes "prisma_validate_body ev m c w = (r, w')"
  shows "w' = w\<lparr>fs := fs w'\<rparr>"
  using assms
  by (auto simp: prisma_validate_body_def split: sum.splits if_splits)

lemma run_prisma_validate_world:
  "\<exists>f. snd (run_prisma_validate ev m c w) = w\<lparr>fs := f, validate_calls := Suc (validate_calls w)\<rparr>"
proof -
  obtain r w' where b: "prisma_validate_body ev m c w = (r, w')" by (cases "prisma_validate_body ev m c w")
  then have "w' = w\<lparr>fs := fs w'\<rparr>" by (rule body_counts)
  then obtain f where "w' = w\<lparr>fs := f\<rparr>" ..
  with b show ?thesis
    by (auto simp: run_prisma_validate_def split: sum.splits exn.splits)
qed

lemma run_prisma_validate_counts:
  assumes "run_prisma_validate ev m c w = (r, w')"
  shows "validate_calls w' = Suc (validate_calls w)" and "fix_calls w' = fix_calls w"
    and "llm_calls w' = llm_calls w" and "schema_writes w' = schema_writes w"
  using run_prisma_validate_world[of ev m c w] assms by auto

lemma fix_schema_with_llm_counts:
  assumes "fix_schema_with_llm m c d w = (c', w')"
  shows "validate_calls w' = validate_calls w" and "fix_calls w' = Suc (fix_calls w)"
    and "schema_writes w' = schema_writes w" and "fs w' = fs w"
    and "llm_calls w' = (if llm_client m = None then llm_calls w else Suc (llm_calls w))"
  using assms
  by (auto simp: fix_schema_with_llm_def chat_completion_def split: option.splits sum.splits)

lemma set_schema_counts:
  assumes "set_schema ev m c w = (r, w')"
  shows "validate_calls w' = validate_calls w" and "fix_calls w' = fix_calls w"
    and "llm_calls w' = llm_calls w"
  using assms by (auto simp: set_schema_def split: sum.splits)

lemma set_schema_writes:
  assumes "set_schema ev m c w = (r, w')"
  shows "(r = Inr () \<and> schema_writes w' = c # schema_writes w) \<or>
         (r \<noteq> Inr () \<and> r \<noteq> Inl UnboundLocalError \<and> schema_writes w' = schema_writes w \<and>
          (encodable ev c \<longrightarrow> w' = w))"
  using assms
  by (auto simp: set_schema_def open_truncate_def file_write_def
      split: sum.splits option.splits if_splits dest: walk_errors)

lemma loop_exit:
  "\<not> att < mr \<Longrightarrow>
   validate_loop ev m sc mr att cur em w = all_attempts_failed em cur att w"
  by (subst validate_loop.simps) simp

lemma loop_pass_same:
  "att < mr \<Longrightarrow> run_prisma_validate ev m cur w = ((True, msg), w1) \<Longrightarrow> cur = sc \<Longrightarrow>
   validate_loop ev m sc mr att cur em w =
     (Inr \<lparr>success = True, error = [], fixed_schema = cur, attempts = att + 1\<rparr>, w1)"
  by (subst validate_loop.simps) simp

lemma loop_pass_changed:
  "att < mr \<Longrightarrow> run_prisma_validate ev m cur w = ((True, msg), w1) \<Longrightarrow> cur \<noteq> sc \<Longrightarrow>
   validate_loop ev m sc mr att cur em w =
     (case set_schema ev m cur w1 of
        (Inl e, w2) \<Rightarrow> (Inl e, w2)
      | (Inr u, w2) \<Rightarrow>
          (Inr \<lparr>success = True, error = [], fixed_schema = cur, attempts = att + 1\<rparr>, w2))"
  by (subst validate_loop.simps) simp

lemma loop_fail_last:
  "att < mr \<Longrightarrow> run_prisma_validate ev m cur w = ((False, msg), w1) \<Longrightarrow>
   \<not> (att + 1 < mr \<and> llm_client m \<noteq> None) \<Longrightarrow>
   validate_loop ev m sc mr att cur em w =
     (Inr \<lparr>success = False, error = msg, fixed_schema = cur, attempts = att + 1\<rparr>, w1)"
  by (subst validate_loop.simps) (auto simp: all_attempts_failed_def)

lemma loop_fail_retry:
  "att < mr \<Longrightarrow> run_prisma_validate ev m cur w = ((False, msg), w1) \<Longrightarrow>
   att + 1 < mr \<Longrightarrow> llm_client m \<noteq> None \<Longrightarrow>
   fix_schema_with_llm m cur msg w1 = (fixed, w2) \<Longrightarrow>
   validate_loop ev m sc mr att cur em w =
     validate_loop ev m sc mr (att + 1) fixed (Some msg) w2"
  by (subst validate_loop.simps) auto

text \<open>The loop's induction principle, over the cases of one iteration.\<close>

lemma loop_cases [consumes 0, case_names exit pass_same pass_changed fail_last fail_retry]:
  fixes mr :: int
  assumes "\<And>att cur em w. \<not> att < mr \<Longrightarrow> P att cur em w"
    and "\<And>att cur em w msg w1. att < mr \<Longrightarrow>
           run_prisma_validate ev m cur w = ((True, msg), w1) \<Longrightarrow> cur = sc \<Longrightarrow> P att cur em w"
    and "\<And>att cur em w msg w1. att < mr \<Longrightarrow>
           run_prisma_validate ev m cur w = ((True, msg), w1) \<Longrightarrow> cur \<noteq> sc \<Longrightarrow> P att cur em w"
    and "\<And>att cur em w msg w1. att < mr \<Longrightarrow>
           run_prisma_validate ev m cur w = ((False, msg), w1) \<Longrightarrow>
           \<not> (att + 1 < mr \<and> llm_client m \<noteq> None) \<Longrightarrow> P att cur em w"
    and "\<And>att cur em w msg w1 fixed w2. att < mr \<Longrightarrow>
           run_prisma_validate ev m cur w = ((False, msg), w1) \<Longrightarrow>
           att + 1 < mr \<Longrightarrow> llm_client m \<noteq> None \<Longrightarrow>
           fix_schema_with_llm m cur msg w1 = (fixed, w2) \<Longrightarrow>
           P (att + 1) fixed (Some msg) w2 \<Longrightarrow> P att cur em w"
  shows "P att cur em w"
proof (induction "nat (mr - att)" arbitrary: att cur em w rule: less_induct)
  case (less att cur em w)
  show ?case
  proof (cases "att < mr")
    case False
    then show ?thesis by (rule assms(1))
  next
    case True
    obtain ok msg w1 where v: "run_prisma_validate ev m cur w = ((ok, msg), w1)"
      by (metis surj_pair)
    show ?thesis
    proof (cases ok)
      case ok: True
      with True v show ?thesis by (cases "cur = sc") (auto intro: assms(2,3))
    next
      case nok: False
      show ?thesis
      proof (cases "att + 1 < mr \<and> llm_client m \<noteq> None")
        case False
        with True v nok show ?thesis by (auto intro: assms(4))
      next
        case t: True
        obtain fixed w2 where fx: "fix_schema_with_llm m cur msg w1 = (fixed, w2)"
          by (metis surj_pair)
        have "nat (mr - (att + 1)) < nat (mr - att)" using True by simp
        then have "P (att + 1) fixed (Some msg) w2" by (rule less)
        with True v nok t fx show ?thesis by (auto intro: assms(5))
      qed
    qed
  qed
qed

lemma loop_validate_calls:
  "validate_calls (snd (validate_loop ev m sc mr att cur em w)) \<le> validate_calls w + nat (mr - att)"
proof (induction att cur em w rule: loop_cases[where ev = ev and m = m and sc = sc and mr = mr])
  case (exit att cur em w)
  then show ?case by (simp add: loop_exit all_attempts_failed_def split: option.splits)
next
  case (pass_same att cur em w msg w1)
  note eq = loop_pass_same[OF pass_same] and c = run_prisma_validate_counts[OF pass_same(2)]
  from pass_same(1) c show ?case unfolding eq by simp
next
  case (pass_changed att cur em w msg w1)
  note eq = loop_pass_changed[OF pass_changed] and c = run_prisma_validate_counts[OF pass_changed(2)]
  obtain r w2 where s: "set_schema ev m cur w1 = (r, w2)" by (metis surj_pair)
  from pass_changed(1) c set_schema_counts[OF s] s show ?case
    unfolding eq by (auto split: sum.splits)
next
  case (fail_last att cur em w msg w1)
  note eq = loop_fail_last[OF fail_last] and c = run_prisma_validate_counts[OF fail_last(2)]
  from fail_last(1) c show ?case unfolding eq by simp
next
  case (fail_retry att cur em w msg w1 fixed w2)
  note eq = loop_fail_retry[OF fail_retry.hyps]
    and c = run_prisma_validate_counts[OF fail_retry.hyps(2)]
    and d = fix_schema_with_llm_counts[OF fail_retry.hyps(5)]
  from fail_retry.hyps(1) fail_retry.IH c d show ?case unfolding eq by simp
qed

lemma loop_success_result:
  "validate_loop ev m sc mr att cur em w = (Inr r, w') \<Longrightarrow> success r \<Longrightarrow>
   error r = [] \<and> att + 1 \<le> attempts r"
proof (induction att cur em w rule: loop_cases[where ev = ev and m = m and sc = sc and mr = mr])
  case (exit att cur em w)
  then show ?case by (auto simp: loop_exit all_attempts_failed_def split: option.splits)
next
  case (pass_same att cur em w msg w1)
  from pass_same.prems show ?case unfolding loop_pass_same[OF pass_same.hyps] by auto
next
  case (pass_changed att cur em w msg w1)
  from pass_changed.prems show ?case unfolding loop_pass_changed[OF pass_changed.hyps]
    by (auto split: prod.splits sum.splits)
next
  case (fail_last att cur em w msg w1)
  from fail_last.prems show ?case unfolding loop_fail_last[OF fail_last.hyps] by auto
next
  case (fail_retry att cur em w msg w1 fixed w2)
  from fail_retry.prems fail_retry.IH show ?case
    unfolding loop_fail_retry[OF fail_retry.hyps] by auto
qed

lemma loop_not_unbound:
  "att < mr \<or> em \<noteq> None \<Longrightarrow> fst (validate_loop ev m sc mr att cur em w) \<noteq> Inl UnboundLocalError"
proof (induction att cur em w rule: loop_cases[where ev = ev and m = m and sc = sc and mr = mr])
  case (exit att cur em w)
  then show ?case by (auto simp: loop_exit all_attempts_failed_def)
next
  case (pass_same att cur em w msg w1)
  show ?case unfolding loop_pass_same[OF pass_same.hyps] by simp
next
  case (pass_changed att cur em w msg w1)
  obtain r w2 where s: "set_schema ev m cur w1 = (r, w2)" by (metis surj_pair)
  with set_schema_writes[OF s] show ?case
    unfolding loop_pass_changed[OF pass_changed.hyps] by (cases r) auto
next
  case (fail_last att cur em w msg w1)
  show ?case unfolding loop_fail_last[OF fail_last.hyps] by simp
next
  case (fail_retry att cur em w msg w1 fixed w2)
  then show ?case unfolding loop_fail_retry[OF fail_retry.hyps] by simp
qed



lemma candidate_after_step:
  assumes "run_prisma_validate ev m c w = ((ok, msg), w1)"
    and "fix_schema_with_llm m c msg w1 = (c', w2)"
  shows "candidate_after ev m (Suc k) c w = candidate_after ev m k c' w2"
    and "nth_validation ev m (Suc k) c w = nth_validation ev m k c' w2"
  using assms by (simp_all add: nth_validation_def)

lemma nth_validation_0: "nth_validation ev m 0 c w = run_prisma_validate ev m c w"
  by (simp add: nth_validation_def)

lemma candidate_after_counts:
  "validate_calls (snd (candidate_after ev m k c w)) = validate_calls w + k \<and>
   fix_calls (snd (candidate_after ev m k c w)) = fix_calls w + k \<and>
   llm_calls (snd (candidate_after ev m k c w)) =
     (if llm_client m = None then llm_calls w else llm_calls w + k)"
proof (induction k arbitrary: c w)
  case 0
  then show ?case by simp
next
  case (Suc k)
  obtain ok msg w1 where v: "run_prisma_validate ev m c w = ((ok, msg), w1)"
    by (metis surj_pair)
  obtain c' w2 where f: "fix_schema_with_llm m c msg w1 = (c', w2)" by (metis surj_pair)
  note s = candidate_after_step(1)[OF v f]
    and a = run_prisma_validate_counts[OF v] and b = fix_schema_with_llm_counts[OF f]
  from Suc.IH[of c' w2] a b show ?case unfolding s by simp
qed

lemma nth_validation_counts:
  "validate_calls (snd (nth_validation ev m k c w)) = validate_calls w + k + 1 \<and>
   fix_calls (snd (nth_validation ev m k c w)) = fix_calls w + k \<and>
   llm_calls (snd (nth_validation ev m k c w)) =
     (if llm_client m = None then llm_calls w else llm_calls w + k)"
proof -
  obtain r w' where n: "nth_validation ev m k c w = (r, w')" by (metis surj_pair)
  then have "run_prisma_validate ev m (fst (candidate_after ev m k c w))
               (snd (candidate_after ev m k c w)) = (r, w')"
    by (simp add: nth_validation_def)
  from run_prisma_validate_counts[OF this] candidate_after_counts[of ev m k c w] n
  show ?thesis by simp
qed

text \<open>
  Every run of the loop is a number of failed validations, each followed by a repair,
  and one last validation; only then may the artifact be written.
\<close>

lemma loop_trace:
  "att < mr \<Longrightarrow>
   \<exists>j < nat (mr - att).
     (\<forall>k < j. \<not> fst (fst (nth_validation ev m k cur w))) \<and>
     (snd (validate_loop ev m sc mr att cur em w) = snd (nth_validation ev m j cur w) \<or>
      (\<exists>u. set_schema ev m (fst (candidate_after ev m j cur w))
              (snd (nth_validation ev m j cur w)) =
            (u, snd (validate_loop ev m sc mr att cur em w)))) \<and>
     (\<forall>r. fst (validate_loop ev m sc mr att cur em w) = Inr r \<longrightarrow>
          attempts r = att + int j + 1)"
proof (induction att cur em w rule: loop_cases[where ev = ev and m = m and sc = sc and mr = mr])
  case (exit att cur em w)
  then show ?case by simp
next
  case (pass_same att cur em w msg w1)
  have "snd (validate_loop ev m sc mr att cur em w) = snd (nth_validation ev m 0 cur w)"
    unfolding loop_pass_same[OF pass_same.hyps] nth_validation_0 pass_same.hyps(2) by simp
  moreover have "\<forall>r. fst (validate_loop ev m sc mr att cur em w) = Inr r \<longrightarrow>
                     attempts r = att + int 0 + 1"
    unfolding loop_pass_same[OF pass_same.hyps] by auto
  ultimately show ?case using pass_same.hyps(1) by (intro exI[of _ 0]) simp
next
  case (pass_changed att cur em w msg w1)
  obtain u w2 where s: "set_schema ev m cur w1 = (u, w2)" by (metis surj_pair)
  have "snd (validate_loop ev m sc mr att cur em w) = w2"
    unfolding loop_pass_changed[OF pass_changed.hyps] s by (cases u) simp_all
  with s have "\<exists>u. set_schema ev m (fst (candidate_after ev m 0 cur w))
                      (snd (nth_validation ev m 0 cur w)) =
                    (u, snd (validate_loop ev m sc mr att cur em w))"
    unfolding nth_validation_0 pass_changed.hyps(2) by simp
  moreover have "\<forall>r. fst (validate_loop ev m sc mr att cur em w) = Inr r \<longrightarrow>
                     attempts r = att + int 0 + 1"
    unfolding loop_pass_changed[OF pass_changed.hyps] s by (cases u) auto
  ultimately show ?case using pass_changed.hyps(1) by (intro exI[of _ 0]) simp
next
  case (fail_last att cur em w msg w1)
  have "snd (validate_loop ev m sc mr att cur em w) = snd (nth_validation ev m 0 cur w)"
    unfolding loop_fail_last[OF fail_last.hyps] nth_validation_0 fail_last.hyps(2) by simp
  moreover have "\<forall>r. fst (validate_loop ev m sc mr att cur em w) = Inr r \<longrightarrow>
                     attempts r = att + int 0 + 1"
    unfolding loop_fail_last[OF fail_last.hyps] by auto
  ultimately show ?case using fail_last.hyps(1) by (intro exI[of _ 0]) simp
next
  case (fail_retry att cur em w msg w1 fixed w2)
  note eq = loop_fail_retry[OF fail_retry.hyps]
    and st = candidate_after_step[OF fail_retry.hyps(2) fail_retry.hyps(5)]
  from fail_retry.IH[OF fail_retry.hyps(3)] obtain j where
    j: "j < nat (mr - (att + 1))"
    and f: "\<forall>k < j. \<not> fst (fst (nth_validation ev m k fixed w2))"
    and w: "snd (validate_loop ev m sc mr (att + 1) fixed (Some msg) w2) =
              snd (nth_validation ev m j fixed w2) \<or>
            (\<exists>u. set_schema ev m (fst (candidate_after ev m j fixed w2))
                    (snd (nth_validation ev m j fixed w2)) =
                  (u, snd (validate_loop ev m sc mr (att + 1) fixed (Some msg) w2)))"
    and a: "\<forall>r. fst (validate_loop ev m sc mr (att + 1) fixed (Some msg) w2) = Inr r \<longrightarrow>
                attempts r = att + 1 + int j + 1"
    by blast
  have "Suc j < nat (mr - att)" using j fail_retry.hyps(3) by linarith
  moreover have "\<forall>k < Suc j. \<not> fst (fst (nth_validation ev m k cur w))"
  proof (intro allI impI)
    fix k assume "k < Suc j"
    show "\<not> fst (fst (nth_validation ev m k cur w))"
    proof (cases k)
      case 0
      then show ?thesis by (simp add: nth_validation_0 fail_retry.hyps(2))
    next
      case (Suc k')
      with \<open>k < Suc j\<close> f show ?thesis by (simp add: st(2))
    qed
  qed
  moreover from w have
    "snd (validate_loop ev m sc mr att cur em w) = snd (nth_validation ev m (Suc j) cur w) \<or>
     (\<exists>u. set_schema ev m (fst (candidate_after ev m (Suc j) cur w))
             (snd (nth_validation ev m (Suc j) cur w)) =
           (u, snd (validate_loop ev m sc mr att cur em w)))"
    unfolding eq st .
  moreover from a have
    "\<forall>r. fst (validate_loop ev m sc mr att cur em w) = Inr r \<longrightarrow>
         attempts r = att + int (Suc j) + 1"
    unfolding eq by simp
  ultimately show ?case by blast
qed

lemma loop_always_failing:
  assumes "llm_client m \<noteq> None"
  shows "att < mr \<Longrightarrow>
         \<forall>k < nat (mr - att). \<not> fst (fst (nth_validation ev m k cur w)) \<Longrightarrow>
         validate_loop ev m sc mr att cur em w =
           (Inr \<lparr>success = False,
                 error = snd (fst (nth_validation ev m (nat (mr - att) - 1) cur w)),
                 fixed_schema = fst (candidate_after ev m (nat (mr - att) - 1) cur w),
                 attempts = mr\<rparr>,
            snd (nth_validation ev m (nat (mr - att) - 1) cur w))"
proof (induction att cur em w rule: loop_cases[where ev = ev and m = m and sc = sc and mr = mr])
  case (exit att cur em w)
  then show ?case by simp
next
  case (pass_same att cur em w msg w1)
  from pass_same.prems(2) pass_same.hyps(1) have "\<not> fst (fst (nth_validation ev m 0 cur w))"
    by simp
  with pass_same.hyps(2) show ?case by (simp add: nth_validation_0)
next
  case (pass_changed att cur em w msg w1)
  from pass_changed.prems(2) pass_changed.hyps(1)
  have "\<not> fst (fst (nth_validation ev m 0 cur w))" by simp
  with pass_changed.hyps(2) show ?case by (simp add: nth_validation_0)
next
  case (fail_last att cur em w msg w1)
  with assms have mr: "mr = att + 1" by auto
  show ?case
    unfolding loop_fail_last[OF fail_last.hyps]
    by (simp add: mr nth_validation_0 fail_last.hyps(2))
next
  case (fail_retry att cur em w msg w1 fixed w2)
  note eq = loop_fail_retry[OF fail_retry.hyps]
    and st = candidate_after_step[OF fail_retry.hyps(2) fail_retry.hyps(5)]
  have n: "nat (mr - att) - 1 = Suc (nat (mr - (att + 1)) - 1)"
    using fail_retry.hyps(3) by linarith
  have "\<forall>k < nat (mr - (att + 1)). \<not> fst (fst (nth_validation ev m k fixed w2))"
  proof (intro allI impI)
    fix k assume "k < nat (mr - (att + 1))"
    then have "Suc k < nat (mr - att)" by linarith
    with fail_retry.prems(2) have "\<not> fst (fst (nth_validation ev m (Suc k) cur w))" by blast
    then show "\<not> fst (fst (nth_validation ev m k fixed w2))" by (simp add: st(2))
  qed
  from fail_retry.IH[OF fail_retry.hyps(3) this] show ?case
    unfolding eq n st .
qed

lemma picky_rejects:
  assumes "c \<noteq> ''model C {}''"
  shows "\<not> fst (fst (run_prisma_validate picky_env m c w))"
proof
  assume "fst (fst (run_prisma_validate picky_env m c w))"
  then obtain p where "validation_stage picky_env m c w = Done p" and "returncode p = 0"
    unfolding passed_iff_done by blast
  with assms show False
    by (auto simp: validation_stage_def picky_env_def example_env_def file_write_def
        open_truncate_def write_translate_posix passing_def failing_def
        split: sum.splits option.splits if_splits)
qed

lemma picky_candidates:
  "fst (candidate_after picky_env (example_manager (Some (replying ''model B {}''))) k c w)
     \<in> {c, ''model B {}''}"
proof (induction k arbitrary: c w)
  case 0
  then show ?case by simp
next
  case (Suc k)
  let ?m = "example_manager (Some (replying ''model B {}''))"
  obtain ok msg w1 where v: "run_prisma_validate picky_env ?m c w = ((ok, msg), w1)"
    by (metis surj_pair)
  obtain c' w2 where f: "fix_schema_with_llm ?m c msg w1 = (c', w2)" by (metis surj_pair)
  then have "c' = ''model B {}''"
    by (auto simp: fix_schema_with_llm_def chat_completion_def example_manager_def
        replying_def extract_schema_def fence_def py_strip_def isspace_def)
  with Suc.IH[of c' w2] show ?case unfolding candidate_after_step(1)[OF v f] by auto
qed

lemma picky_always_rejects:
  "\<not> fst (fst (nth_validation picky_env (example_manager (Some (replying ''model B {}'')))
                  k ''model A {}'' w))"
  unfolding nth_validation_def
  using picky_candidates[of k "''model A {}''" w]
  by (intro picky_rejects) auto

lemma picky_accepts:
  "fst (fst (run_prisma_validate picky_env (example_manager llm) ''model C {}''
               (example_world {[''prisma'']})))"
  by (simp add: run_defs fs_defs upt_rec example_defs picky_env_def)

lemma example_pass_first:
  "validate_schema (example_env passing) (example_manager llm) ''model A {}'' 3
     (example_world {[''prisma'']}) =
   (Inr \<lparr>success = True, error = [], fixed_schema = ''model A {}'', attempts = 1\<rparr>,
    (example_world {[''prisma'']})\<lparr>validate_calls := 1\<rparr>)"
proof -
  have "run_prisma_validate (example_env passing) (example_manager llm) ''model A {}''
          (example_world {[''prisma'']}) =
        ((True, []), (example_world {[''prisma'']})\<lparr>validate_calls := 1\<rparr>)"
    by (simp add: run_defs fs_defs upt_rec example_defs)
  then show ?thesis
    by (simp add: validate_schema_def loop_pass_same)
qed

lemma example_fail_once:
  "run_prisma_validate (example_env failing) (example_manager llm) ''model A {}''
     (example_world {[''prisma'']}) =
   ((False, ''missing id field''), (example_world {[''prisma'']})\<lparr>validate_calls := 1\<rparr>)"
  by (simp add: run_defs fs_defs upt_rec example_defs)

text \<open>
  Claim C1: with \<open>max_retries \<ge> 1\<close> and a non-empty candidate, a run of
  \<^verbatim>\<open>validate_schema\<close> is, for some \<open>j < max_retries\<close>, \<open>j\<close> failed calls of the validator,
  each followed by one call of the repair, then one more call of the validator, and
  after it at most a \<^verbatim>\<open>set_schema\<close>: at most \<open>max_retries\<close> validator calls. If every
  validator call of the run fails and an LLM client is configured, the run is exactly
  \<open>max_retries\<close> validator calls with \<open>max_retries - 1\<close> repairs in between, each repair
  asking the client once, and the result is the failure with the last diagnostic, the
  last candidate and \<open>attempts = max_retries\<close>. If no client is configured and the
  validator fails, the run is exactly the one validator call: a failure after one
  attempt, no repair, no request to a client.
\<close>

theorem validate_schema_attempts:
  assumes "1 \<le> max_retries" and "schema_content \<noteq> []"
  shows
   "(\<exists>j < nat max_retries.
       (\<forall>k < j. \<not> fst (fst (nth_validation ev m k schema_content w))) \<and>
       (snd (validate_schema ev m schema_content max_retries w) =
          snd (nth_validation ev m j schema_content w) \<or>
        (\<exists>u. set_schema ev m (fst (candidate_after ev m j schema_content w))
                (snd (nth_validation ev m j schema_content w)) =
              (u, snd (validate_schema ev m schema_content max_retries w)))) \<and>
       validate_calls (snd (validate_schema ev m schema_content max_retries w)) =
         validate_calls w + j + 1 \<and>
       fix_calls (snd (validate_schema ev m schema_content max_retries w)) =
         fix_calls w + j) \<and>
    validate_calls (snd (validate_schema ev m schema_content max_retries w))
      \<le> validate_calls w + nat max_retries \<and>
    ((\<forall>k < nat max_retries. \<not> fst (fst (nth_validation ev m k schema_content w))) \<and>
     llm_client m \<noteq> None \<longrightarrow>
       validate_schema ev m schema_content max_retries w =
         (Inr \<lparr>success = False,
               error = snd (fst (nth_validation ev m (nat max_retries - 1) schema_content w)),
               fixed_schema = fst (candidate_after ev m (nat max_retries - 1) schema_content w),
               attempts = max_retries\<rparr>,
          snd (nth_validation ev m (nat max_retries - 1) schema_content w)) \<and>
       fix_calls (snd (validate_schema ev m schema_content max_retries w)) =
         fix_calls w + nat (max_retries - 1) \<and>
       llm_calls (snd (validate_schema ev m schema_content max_retries w)) =
         llm_calls w + nat (max_retries - 1) \<and>
       validate_calls (snd (validate_schema ev m schema_content max_retries w)) =
         validate_calls w + nat max_retries) \<and>
    (\<not> fst (fst (run_prisma_validate ev m schema_content w)) \<and> llm_client m = None \<longrightarrow>
       validate_schema ev m schema_content max_retries w =
         (Inr \<lparr>success = False,
               error = snd (fst (run_prisma_validate ev m schema_content w)),
               fixed_schema = schema_content, attempts = 1\<rparr>,
          snd (run_prisma_validate ev m schema_content w)) \<and>
       fix_calls (snd (validate_schema ev m schema_content max_retries w)) = fix_calls w \<and>
       llm_calls (snd (validate_schema ev m schema_content max_retries w)) = llm_calls w \<and>
       validate_calls (snd (validate_schema ev m schema_content max_retries w)) =
         validate_calls w + 1)"
proof -
  let ?V = "validate_schema ev m schema_content max_retries w"
  let ?L = "validate_loop ev m schema_content max_retries 0 schema_content None w"
  have V: "?V = ?L" using assms(2) by (simp add: validate_schema_def)
  from assms(1) have lt: "0 < max_retries" by simp
  have A: "\<exists>j < nat max_retries.
       (\<forall>k < j. \<not> fst (fst (nth_validation ev m k schema_content w))) \<and>
       (snd ?V = snd (nth_validation ev m j schema_content w) \<or>
        (\<exists>u. set_schema ev m (fst (candidate_after ev m j schema_content w))
                (snd (nth_validation ev m j schema_content w)) = (u, snd ?V))) \<and>
       validate_calls (snd ?V) = validate_calls w + j + 1 \<and>
       fix_calls (snd ?V) = fix_calls w + j"
  proof -
    from loop_trace[OF lt, of ev m schema_content w schema_content None] obtain j where
      j: "j < nat max_retries"
      and f: "\<forall>k < j. \<not> fst (fst (nth_validation ev m k schema_content w))"
      and d: "snd ?L = snd (nth_validation ev m j schema_content w) \<or>
              (\<exists>u. set_schema ev m (fst (candidate_after ev m j schema_content w))
                      (snd (nth_validation ev m j schema_content w)) = (u, snd ?L))"
      by auto
    note n = nth_validation_counts[of ev m j schema_content w]
    from d have "validate_calls (snd ?L) = validate_calls w + j + 1 \<and>
                 fix_calls (snd ?L) = fix_calls w + j"
    proof
      assume "snd ?L = snd (nth_validation ev m j schema_content w)"
      with n show ?thesis by simp
    next
      assume "\<exists>u. set_schema ev m (fst (candidate_after ev m j schema_content w))
                      (snd (nth_validation ev m j schema_content w)) = (u, snd ?L)"
      then obtain u where
        "set_schema ev m (fst (candidate_after ev m j schema_content w))
           (snd (nth_validation ev m j schema_content w)) = (u, snd ?L)" ..
      from set_schema_counts[OF this] n show ?thesis by simp
    qed
    with j f d show ?thesis unfolding V by blast
  qed
  then have B: "validate_calls (snd ?V) \<le> validate_calls w + nat max_retries" by auto
  have C: "validate_schema ev m schema_content max_retries w =
         (Inr \<lparr>success = False,
               error = snd (fst (nth_validation ev m (nat max_retries - 1) schema_content w)),
               fixed_schema = fst (candidate_after ev m (nat max_retries - 1) schema_content w),
               attempts = max_retries\<rparr>,
          snd (nth_validation ev m (nat max_retries - 1) schema_content w)) \<and>
       fix_calls (snd ?V) = fix_calls w + nat (max_retries - 1) \<and>
       llm_calls (snd ?V) = llm_calls w + nat (max_retries - 1) \<and>
       validate_calls (snd ?V) = validate_calls w + nat max_retries"
    if h: "(\<forall>k < nat max_retries. \<not> fst (fst (nth_validation ev m k schema_content w))) \<and>
           llm_client m \<noteq> None"
  proof -
    from h have f: "\<forall>k < nat (max_retries - 0).
                      \<not> fst (fst (nth_validation ev m k schema_content w))" by simp
    from h have l: "llm_client m \<noteq> None" by simp
    have e: "?V = (Inr \<lparr>success = False,
               error = snd (fst (nth_validation ev m (nat max_retries - 1) schema_content w)),
               fixed_schema = fst (candidate_after ev m (nat max_retries - 1) schema_content w),
               attempts = max_retries\<rparr>,
          snd (nth_validation ev m (nat max_retries - 1) schema_content w))"
      using loop_always_failing[OF l lt f, of schema_content None] unfolding V by simp
    let ?N = "nth_validation ev m (nat max_retries - 1) schema_content w"
    note n = nth_validation_counts[of ev m "nat max_retries - 1" schema_content w]
    have a: "nat (max_retries - 1) = nat max_retries - 1"
      and b: "nat max_retries = nat max_retries - 1 + 1"
      using assms(1) by linarith+
    from n have "validate_calls (snd ?N) = validate_calls w + (nat max_retries - 1) + 1"
      by blast
    with b have c1: "validate_calls (snd ?N) = validate_calls w + nat max_retries"
      by linarith
    from n have "fix_calls (snd ?N) = fix_calls w + (nat max_retries - 1)" by blast
    with a have c2: "fix_calls (snd ?N) = fix_calls w + nat (max_retries - 1)"
      by (simp only:)
    from n l have "llm_calls (snd ?N) = llm_calls w + (nat max_retries - 1)" by simp
    with a have c3: "llm_calls (snd ?N) = llm_calls w + nat (max_retries - 1)"
      by (simp only:)
    from c1 c2 c3 show ?thesis unfolding e by (simp only: snd_conv)
  qed
  have D: "validate_schema ev m schema_content max_retries w =
         (Inr \<lparr>success = False,
               error = snd (fst (run_prisma_validate ev m schema_content w)),
               fixed_schema = schema_content, attempts = 1\<rparr>,
          snd (run_prisma_validate ev m schema_content w)) \<and>
       fix_calls (snd ?V) = fix_calls w \<and> llm_calls (snd ?V) = llm_calls w \<and>
       validate_calls (snd ?V) = validate_calls w + 1"
    if h: "\<not> fst (fst (run_prisma_validate ev m schema_content w)) \<and> llm_client m = None"
  proof -
    obtain msg w1 where
      v: "run_prisma_validate ev m schema_content w = ((False, msg), w1)"
      using h by (metis (full_types) fst_conv surj_pair)
    from h have nl: "\<not> (0 + 1 < max_retries \<and> llm_client m \<noteq> None)" by simp
    note eq = loop_fail_last[OF lt v nl, of schema_content None]
      and c = run_prisma_validate_counts[OF v]
    from c show ?thesis unfolding V eq v by simp
  qed
  from A B C D show ?thesis by blast
qed

theorem validate_schema_attempts_witness:
  "(1::int) \<le> 3 \<and> ''model A {}'' \<noteq> [] \<and>
   fst (fst (run_prisma_validate picky_env (example_manager (Some (replying ''model B {}'')))
               ''model C {}'' (example_world {[''prisma'']}))) \<and>
   \<not> fst (fst (nth_validation picky_env
                  (example_manager (Some (replying ''model B {}''))) 0 ''model A {}''
                  (example_world {[''prisma'']}))) \<and>
   \<not> fst (fst (nth_validation picky_env
                  (example_manager (Some (replying ''model B {}''))) 1 ''model A {}''
                  (example_world {[''prisma'']}))) \<and>
   \<not> fst (fst (nth_validation picky_env
                  (example_manager (Some (replying ''model B {}''))) 2 ''model A {}''
                  (example_world {[''prisma'']}))) \<and>
   llm_client (example_manager (Some (replying ''model B {}''))) \<noteq> None \<and>
   fix_calls (snd (validate_schema picky_env
                     (example_manager (Some (replying ''model B {}''))) ''model A {}'' 3
                     (example_world {[''prisma'']}))) = 2 \<and>
   llm_calls (snd (validate_schema picky_env
                     (example_manager (Some (replying ''model B {}''))) ''model A {}'' 3
                     (example_world {[''prisma'']}))) = 2 \<and>
   validate_calls (snd (validate_schema picky_env
                     (example_manager (Some (replying ''model B {}''))) ''model A {}'' 3
                     (example_world {[''prisma'']}))) = 3 \<and>
   (\<exists>r. fst (validate_schema picky_env
               (example_manager (Some (replying ''model B {}''))) ''model A {}'' 3
               (example_world {[''prisma'']})) = Inr r \<and> \<not> success r \<and> attempts r = 3) \<and>
   \<not> fst (fst (run_prisma_validate (example_env failing) (example_manager None)
                  ''model A {}'' (example_world {[''prisma'']}))) \<and>
   llm_client (example_manager None) = None \<and>
   validate_schema (example_env failing) (example_manager None) ''model A {}'' 3
       (example_world {[''prisma'']}) =
     (Inr \<lparr>success = False, error = ''missing id field'', fixed_schema = ''model A {}'',
           attempts = 1\<rparr>,
      (example_world {[''prisma'']})\<lparr>validate_calls := 1\<rparr>)"
proof -
  let ?m = "example_manager (Some (replying ''model B {}''))"
  let ?w = "example_world {[''prisma'']}"
  have n: "(1::int) \<le> 3" "''model A {}'' \<noteq> []" by simp_all
  have f: "\<forall>k < nat 3. \<not> fst (fst (nth_validation picky_env ?m k ''model A {}'' ?w))"
    by (simp add: picky_always_rejects)
  have a: "llm_client ?m \<noteq> None" and b: "llm_client (example_manager None) = None"
    and c: "fix_calls ?w = 0" "llm_calls ?w = 0" "validate_calls ?w = 0"
    by (simp_all add: example_manager_def example_world_def)
  have p: "fst (fst (run_prisma_validate picky_env ?m ''model C {}'' ?w))"
    by (rule picky_accepts)
  note t1 = validate_schema_attempts[OF n, of picky_env ?m ?w]
    and t2 = validate_schema_attempts[OF n, of "example_env failing" "example_manager None" ?w]
  from t1 f a have
    e1: "validate_schema picky_env ?m ''model A {}'' 3 ?w =
          (Inr \<lparr>success = False,
                error = snd (fst (nth_validation picky_env ?m (nat 3 - 1) ''model A {}'' ?w)),
                fixed_schema = fst (candidate_after picky_env ?m (nat 3 - 1) ''model A {}'' ?w),
                attempts = 3\<rparr>,
           snd (nth_validation picky_env ?m (nat 3 - 1) ''model A {}'' ?w))"
    and c1: "fix_calls (snd (validate_schema picky_env ?m ''model A {}'' 3 ?w)) =
               fix_calls ?w + nat (3 - 1)"
    and c2: "llm_calls (snd (validate_schema picky_env ?m ''model A {}'' 3 ?w)) =
               llm_calls ?w + nat (3 - 1)"
    and c3: "validate_calls (snd (validate_schema picky_env ?m ''model A {}'' 3 ?w)) =
               validate_calls ?w + nat 3"
    by blast+
  from e1 have r: "\<exists>r. fst (validate_schema picky_env ?m ''model A {}'' 3 ?w) = Inr r \<and>
                       \<not> success r \<and> attempts r = 3"
    by simp
  have g: "\<not> fst (fst (run_prisma_validate (example_env failing) (example_manager None)
                          ''model A {}'' ?w))"
    by (simp add: example_fail_once)
  from t2 g b have
    "validate_schema (example_env failing) (example_manager None) ''model A {}'' 3 ?w =
       (Inr \<lparr>success = False,
             error = snd (fst (run_prisma_validate (example_env failing) (example_manager None)
                                 ''model A {}'' ?w)),
             fixed_schema = ''model A {}'', attempts = 1\<rparr>,
        snd (run_prisma_validate (example_env failing) (example_manager None)
               ''model A {}'' ?w))"
    by blast
  then have e2: "validate_schema (example_env failing) (example_manager None) ''model A {}'' 3 ?w =
       (Inr \<lparr>success = False, error = ''missing id field'', fixed_schema = ''model A {}'',
             attempts = 1\<rparr>, ?w\<lparr>validate_calls := 1\<rparr>)"
    by (simp add: example_fail_once)
  from c1 c have d1: "fix_calls (snd (validate_schema picky_env ?m ''model A {}'' 3 ?w)) = 2"
    by simp
  from c2 c have d2: "llm_calls (snd (validate_schema picky_env ?m ''model A {}'' 3 ?w)) = 2"
    by simp
  from c3 c have d3: "validate_calls (snd (validate_schema picky_env ?m ''model A {}'' 3 ?w)) = 3"
    by simp
  note f0 = picky_always_rejects[of 0 ?w] and f1 = picky_always_rejects[of 1 ?w]
    and f2 = picky_always_rejects[of 2 ?w]
  from n p f0 f1 f2 a d1 d2 d3 r g b e2 show ?thesis by (intro conjI)
qed

text \<open>
  Claim C2: a result returned with \<open>success\<close> true has an empty \<open>error\<close> and
  \<open>attempts \<ge> 1\<close>; and for the empty candidate, whatever \<open>max_retries\<close> is, the result is
  the failure \<^verbatim>\<open>"Schema content is empty"\<close> with \<open>attempts = 0\<close>, the world being left as
  it was, so that the validator has not been called.
\<close>

theorem validate_schema_result_invariant:
  "(validate_schema ev m schema_content max_retries w = (Inr r, w') \<and> success r \<longrightarrow>
      error r = [] \<and> 1 \<le> attempts r) \<and>
   validate_schema ev m [] max_retries w =
     (Inr \<lparr>success = False, error = ''Schema content is empty'', fixed_schema = [],
           attempts = 0\<rparr>, w)"
  using loop_success_result[of ev m schema_content max_retries 0 schema_content None w r w']
  by (auto simp: validate_schema_def)

theorem validate_schema_result_invariant_witness:
  "validate_schema (example_env passing) (example_manager None) ''model A {}'' 3
     (example_world {[''prisma'']}) =
   (Inr \<lparr>success = True, error = [], fixed_schema = ''model A {}'', attempts = 1\<rparr>,
    (example_world {[''prisma'']})\<lparr>validate_calls := 1\<rparr>) \<and>
   success \<lparr>success = True, error = [], fixed_schema = ''model A {}'', attempts = 1\<rparr> \<and>
   error \<lparr>success = True, error = [], fixed_schema = ''model A {}'', attempts = 1\<rparr> = [] \<and>
   1 \<le> attempts \<lparr>success = True, error = [], fixed_schema = ''model A {}'', attempts = 1\<rparr>"
  using validate_schema_result_invariant
    [of "example_env passing" "example_manager None" "''model A {}''" 3
        "example_world {[''prisma'']}"
        "\<lparr>success = True, error = [], fixed_schema = ''model A {}'', attempts = 1\<rparr>"
        "(example_world {[''prisma'']})\<lparr>validate_calls := 1\<rparr>"]
    example_pass_first[of None]
  by simp

text \<open>
  Claim C10: with a non-empty candidate and \<open>max_retries \<le> 0\<close> the loop body never runs,
  the \<^verbatim>\<open>return\<close> after the loop reads \<^verbatim>\<open>error_message\<close> before any assignment, and the
  call raises \<^verbatim>\<open>UnboundLocalError\<close> (a \<^verbatim>\<open>NameError\<close>) without having called the validator.
  With \<open>max_retries \<ge> 1\<close> this error never occurs.
\<close>

theorem validate_schema_unbound_error_message:
  "(schema_content \<noteq> [] \<and> max_retries \<le> 0 \<longrightarrow>
      validate_schema ev m schema_content max_retries w = (Inl UnboundLocalError, w)) \<and>
   (1 \<le> max_retries \<longrightarrow>
      fst (validate_schema ev m schema_content max_retries w) \<noteq> Inl UnboundLocalError)"
  using loop_not_unbound[of 0 max_retries None ev m schema_content schema_content w]
  by (auto simp: validate_schema_def loop_exit all_attempts_failed_def)

theorem validate_schema_unbound_error_message_witness:
  "''model A {}'' \<noteq> [] \<and> (0::int) \<le> 0 \<and>
   validate_schema (example_env passing) (example_manager None) ''model A {}'' 0
     (example_world {[''prisma'']}) = (Inl UnboundLocalError, example_world {[''prisma'']}) \<and>
   (1::int) \<le> 3 \<and>
   fst (validate_schema (example_env passing) (example_manager None) ''model A {}'' 3
          (example_world {[''prisma'']})) \<noteq> Inl UnboundLocalError"
  using
    validate_schema_unbound_error_message [of "''model A {}''" 0 "example_env passing"
      "example_manager None" "example_world {[''prisma'']}"]
    validate_schema_unbound_error_message [of "''model A {}''" 3 "example_env passing"
      "example_manager None" "example_world {[''prisma'']}"]
  by simp

section \<open>Writes of the artifact\<close>







lemma cleared_user_input [simp]:
  "user_input (if b then state\<lparr>state_error := None\<rparr> else state) = user_input state"
  by simp













end
